theory Spec2Isabelle
  imports Main "HOL-Library.AList"
begin

section \<open>XLIFF extraction (crowdin/parse_xliff.py)\<close>

text \<open>
  A shallow embedding of \<^verbatim>\<open>parse_xliff_file\<close> and \<^verbatim>\<open>parse_all_xliff_files\<close>.
  Conventions:
  \<^item> a Python \<^verbatim>\<open>str\<close> is a \<open>string\<close>; a character stands for a code point below 256;
  \<^item> a Python \<^verbatim>\<open>dict\<close> is an association list with distinct keys, written with
    \<open>AList.update\<close> (an existing key keeps its position, a new key is appended, as a
    dict does) and read with \<open>map_of\<close>;
  \<^item> a function that prints returns, beside its result, the list of messages it printed,
    in order; a function that can raise returns \<open>Inl\<close> of the exception;
  \<^item> the file system is a partial map from paths to file contents.
\<close>

subsection \<open>Python strings\<close>

definition py_isspace :: "char \<Rightarrow> bool" where
  "py_isspace c =
     (let n = (of_char c :: nat)
      in (9 \<le> n \<and> n \<le> 13) \<or> (28 \<le> n \<and> n \<le> 32) \<or> n = 133 \<or> n = 160)"

definition py_lower_char :: "char \<Rightarrow> char" where
  "py_lower_char c =
     (let n = (of_char c :: nat)
      in if (65 \<le> n \<and> n \<le> 90) \<or> (192 \<le> n \<and> n \<le> 222 \<and> n \<noteq> 215)
         then char_of (n + 32) else c)"

definition py_lower :: "string \<Rightarrow> string" where
  "py_lower s = map py_lower_char s"

definition py_strip :: "string \<Rightarrow> string" where
  "py_strip s = rev (dropWhile py_isspace (rev (dropWhile py_isspace s)))"

text \<open>\<^verbatim>\<open>s.split(sep)\<close> for a one-character separator: never an empty list.\<close>

fun py_split :: "char \<Rightarrow> string \<Rightarrow> string list" where
  "py_split sep [] = [[]]"
| "py_split sep (c # cs) =
     (if c = sep then [] # py_split sep cs
      else (case py_split sep cs of
              [] \<Rightarrow> [[c]]
            | w # ws \<Rightarrow> (c # w) # ws))"

text \<open>\<^verbatim>\<open>a or b\<close> on optional strings: \<open>None\<close> and the empty string are falsy.\<close>

definition py_or :: "string option \<Rightarrow> string option \<Rightarrow> string option" where
  "py_or a b = (case a of None \<Rightarrow> b | Some s \<Rightarrow> (if s = [] then b else a))"

subsection \<open>Element trees\<close>

datatype element =
  Element (tag: string) (attrib: "(string \<times> string) list") (etext: "string option")
    (children: "element list")

definition XLIFF_NAMESPACE :: string where
  "XLIFF_NAMESPACE = ''urn:oasis:names:tc:xliff:document:1.2''"

text \<open>The tag that the path step \<^verbatim>\<open>ns:name\<close> selects.\<close>

definition ns :: "string \<Rightarrow> string" where
  "ns name = ''{'' @ XLIFF_NAMESPACE @ ''}'' @ name"

text \<open>\<^verbatim>\<open>elem.get(key)\<close>\<close>

definition get :: "element \<Rightarrow> string \<Rightarrow> string option" where
  "get e key = map_of (attrib e) key"

text \<open>\<^verbatim>\<open>elem.find('ns:name')\<close>: the first child with that tag.\<close>

definition find_elem :: "element \<Rightarrow> string \<Rightarrow> element option" where
  "find_elem e name = List.find (\<lambda>c. tag c = ns name) (children e)"

text \<open>\<^verbatim>\<open>elem.find('ns:name[@key="value"]')\<close>\<close>

definition find_attr :: "element \<Rightarrow> string \<Rightarrow> string \<Rightarrow> string \<Rightarrow> element option" where
  "find_attr e name key v =
     List.find (\<lambda>c. tag c = ns name \<and> get c key = Some v) (children e)"

text \<open>\<^verbatim>\<open>elem.findall('ns:name')\<close>: the children with that tag, in document order.\<close>

definition findall :: "element \<Rightarrow> string \<Rightarrow> element list" where
  "findall e name = filter (\<lambda>c. tag c = ns name) (children e)"

text \<open>\<^verbatim>\<open>elem.iter()\<close>: the element and all its descendants, in document order.\<close>

fun iter :: "element \<Rightarrow> element list" where
  "iter (Element t a x cs) = Element t a x cs # concat (map iter cs)"

definition descendants :: "element \<Rightarrow> element list" where
  "descendants e = concat (map iter (children e))"

text \<open>\<^verbatim>\<open>elem.findall('.//ns:name')\<close>\<close>

definition findall_desc :: "element \<Rightarrow> string \<Rightarrow> element list" where
  "findall_desc e name = filter (\<lambda>c. tag c = ns name) (descendants e)"

text \<open>\<^verbatim>\<open>elem.findall('.//ns:name[@key="value"]')\<close>\<close>

definition findall_desc_attr :: "element \<Rightarrow> string \<Rightarrow> string \<Rightarrow> string \<Rightarrow> element list" where
  "findall_desc_attr e name key v =
     filter (\<lambda>c. tag c = ns name \<and> get c key = Some v) (descendants e)"

text \<open>
  The text that the test \<^verbatim>\<open>x is not None and x.text\<close> lets through: the text of a
  present element, when it is neither \<open>None\<close> nor empty.
\<close>

definition truthy_text :: "element option \<Rightarrow> string option" where
  "truthy_text x =
     (case x of
        None \<Rightarrow> None
      | Some e \<Rightarrow> (case etext e of None \<Rightarrow> None | Some t \<Rightarrow> (if t = [] then None else Some t)))"

subsection \<open>Results, messages and exceptions\<close>

datatype entry =
    StringEntry string                     \<comment> \<open>\<^verbatim>\<open>{'type': 'string', 'value': v}\<close>\<close>
  | PluralEntry "(string \<times> string) list"   \<comment> \<open>\<^verbatim>\<open>{'type': 'plural', 'forms': f}\<close>\<close>

record parse_result =
  r_translations :: "(string \<times> entry) list"     \<comment> \<open>key \<^verbatim>\<open>'translations'\<close>\<close>
  r_target_language :: string                       \<comment> \<open>key \<^verbatim>\<open>'target_language'\<close>\<close>

datatype message =
    PluralWarning string "string option" string
      \<comment> \<open>source text used for plural form \<open>form\<close> of \<open>resname\<close> in \<open>target_language\<close>\<close>
  | StringWarning string string
      \<comment> \<open>source text used for \<open>resname\<close> in \<open>target_language\<close>\<close>
  | Parsing string                         \<comment> \<open>progress line for a locale\<close>
  | Parsed nat                             \<comment> \<open>summary: number of locale files parsed\<close>
  | ValidationHeader
  | ValidationWarning string string

datatype error =
    InvalidStructure string        \<comment> \<open>\<^verbatim>\<open>ValueError("Invalid XLIFF structure in file: ...")\<close>\<close>
  | MissingTargetLanguage string   \<comment> \<open>\<^verbatim>\<open>ValueError("Missing target-language in file: ...")\<close>\<close>
  | AttributeError                 \<comment> \<open>\<^verbatim>\<open>None.split\<close>\<close>
  | ParseError string              \<comment> \<open>\<^verbatim>\<open>ET.parse\<close> cannot read the file as XML\<close>
  | NoSuchFile string              \<comment> \<open>\<^verbatim>\<open>ET.parse\<close> cannot open the file\<close>
  | FileNotFoundError string       \<comment> \<open>\<^verbatim>\<open>FileNotFoundError("Could not find '...' ...")\<close>\<close>
  | LocaleError string error       \<comment> \<open>\<^verbatim>\<open>ValueError("Error processing locale {l}: {e}")\<close>\<close>

datatype file_content = NotXML | XML element

type_synonym filesystem = "string \<rightharpoonup> file_content"

text \<open>\<^verbatim>\<open>ET.parse(file_path).getroot()\<close>\<close>

definition ET_parse :: "filesystem \<Rightarrow> string \<Rightarrow> error + element" where
  "ET_parse fs file_path =
     (case fs file_path of
        None \<Rightarrow> Inl (NoSuchFile file_path)
      | Some NotXML \<Rightarrow> Inl (ParseError file_path)
      | Some (XML root) \<Rightarrow> Inr root)"

subsection \<open>\<^verbatim>\<open>parse_xliff_file\<close>: the plural groups\<close>

text \<open>
  The body of the loop over the units of one group (lines 62 to 83). The state is
  \<open>(plural_forms, resname)\<close>.
\<close>

fun plural_unit_step ::
  "bool \<Rightarrow> string \<Rightarrow> element \<Rightarrow> (string \<times> string) list \<times> string option \<Rightarrow>
     (error + (string \<times> string) list \<times> string option) \<times> message list" where
  "plural_unit_step warn_on_missing_target target_language trans_unit (plural_forms, resname0) =
     (let resname = (if resname0 = None
                     then py_or (get trans_unit ''resname'') (get trans_unit ''id'')
                     else resname0);
          target = find_elem trans_unit ''target'';
          source = find_elem trans_unit ''source'';
          context_group = find_elem trans_unit ''context-group''
      in (case context_group of
            None \<Rightarrow> (Inr (plural_forms, resname), [])
          | Some cg \<Rightarrow>
             (case find_attr cg ''context'' ''context-type'' ''x-plural-form'' of
                None \<Rightarrow> (Inr (plural_forms, resname), [])
              | Some plural_form_elem \<Rightarrow>
                 (case etext plural_form_elem of
                    None \<Rightarrow> (Inl AttributeError, [])
                  | Some t \<Rightarrow>
                     (let form = py_lower (py_strip (last (py_split CHR '':'' t)))
                      in (case truthy_text target of
                            Some tt \<Rightarrow> (Inr (AList.update form tt plural_forms, resname), [])
                          | None \<Rightarrow>
                             (case truthy_text source of
                                Some sx \<Rightarrow>
                                  (Inr (AList.update form sx plural_forms, resname),
                                   if warn_on_missing_target
                                   then [PluralWarning form resname target_language] else [])
                              | None \<Rightarrow> (Inr (plural_forms, resname), []))))))))"

fun plural_units_loop ::
  "bool \<Rightarrow> string \<Rightarrow> element list \<Rightarrow> (string \<times> string) list \<times> string option \<Rightarrow>
     (error + (string \<times> string) list \<times> string option) \<times> message list" where
  "plural_units_loop w lang [] st = (Inr st, [])"
| "plural_units_loop w lang (u # us) st =
     (case plural_unit_step w lang u st of
        (Inl e, out) \<Rightarrow> (Inl e, out)
      | (Inr st', out) \<Rightarrow>
          (case plural_units_loop w lang us st' of (r, out') \<Rightarrow> (r, out @ out')))"

text \<open>The body of the loop over the plural groups (lines 58 to 89).\<close>

definition plural_group_step ::
  "bool \<Rightarrow> string \<Rightarrow> element \<Rightarrow> (string \<times> entry) list \<Rightarrow>
     (error + (string \<times> entry) list) \<times> message list" where
  "plural_group_step w lang grp translations0 =
     (case plural_units_loop w lang (findall grp ''trans-unit'') ([], None) of
        (Inl e, out) \<Rightarrow> (Inl e, out)
      | (Inr (plural_forms, resname), out) \<Rightarrow>
          (case resname of
             None \<Rightarrow> (Inr translations0, out)
           | Some k \<Rightarrow>
               if k \<noteq> [] \<and> plural_forms \<noteq> []
               then (Inr (AList.update k (PluralEntry plural_forms) translations0), out)
               else (Inr translations0, out)))"

fun plural_groups_loop ::
  "bool \<Rightarrow> string \<Rightarrow> element list \<Rightarrow> (string \<times> entry) list \<Rightarrow>
     (error + (string \<times> entry) list) \<times> message list" where
  "plural_groups_loop w lang [] tr = (Inr tr, [])"
| "plural_groups_loop w lang (g # gs) tr =
     (case plural_group_step w lang g tr of
        (Inl e, out) \<Rightarrow> (Inl e, out)
      | (Inr tr', out) \<Rightarrow>
          (case plural_groups_loop w lang gs tr' of (r, out') \<Rightarrow> (r, out @ out')))"

subsection \<open>\<^verbatim>\<open>parse_xliff_file\<close>: the remaining units\<close>

text \<open>The body of the loop over all units (lines 93 to 112); it cannot raise.\<close>

definition singular_step ::
  "bool \<Rightarrow> string \<Rightarrow> element \<Rightarrow> (string \<times> entry) list \<Rightarrow>
     (string \<times> entry) list \<times> message list" where
  "singular_step warn_on_missing_target target_language trans_unit translations0 =
     (case py_or (get trans_unit ''resname'') (get trans_unit ''id'') of
        None \<Rightarrow> (translations0, [])
      | Some resname \<Rightarrow>
          (if resname \<in> fst ` set translations0 then (translations0, [])
           else
             (let target = find_elem trans_unit ''target'';
                  source = find_elem trans_unit ''source''
              in (case truthy_text target of
                    Some tt \<Rightarrow> (AList.update resname (StringEntry tt) translations0, [])
                  | None \<Rightarrow>
                     (case truthy_text source of
                        Some sx \<Rightarrow>
                          (AList.update resname (StringEntry sx) translations0,
                           if warn_on_missing_target
                           then [StringWarning resname target_language] else [])
                      | None \<Rightarrow> (translations0, []))))))"

fun singular_loop ::
  "bool \<Rightarrow> string \<Rightarrow> element list \<Rightarrow> (string \<times> entry) list \<Rightarrow>
     (string \<times> entry) list \<times> message list" where
  "singular_loop w lang [] tr = (tr, [])"
| "singular_loop w lang (u # us) tr =
     (case singular_step w lang u tr of
        (tr', out) \<Rightarrow> (case singular_loop w lang us tr' of (r, out') \<Rightarrow> (r, out @ out')))"

subsection \<open>\<^verbatim>\<open>parse_xliff_file\<close>\<close>

text \<open>What the function does once the tree is read (lines 46 to 117).\<close>

definition parse_root ::
  "string \<Rightarrow> bool \<Rightarrow> element \<Rightarrow> (error + parse_result) \<times> message list" where
  "parse_root file_path w root =
     (case find_elem root ''file'' of
        None \<Rightarrow> (Inl (InvalidStructure file_path), [])
      | Some file_elem \<Rightarrow>
         (case get file_elem ''target-language'' of
            None \<Rightarrow> (Inl (MissingTargetLanguage file_path), [])
          | Some lang \<Rightarrow>
             (case plural_groups_loop w lang
                     (findall_desc_attr root ''group'' ''restype'' ''x-gettext-plurals'') [] of
                (Inl e, out) \<Rightarrow> (Inl e, out)
              | (Inr tr, out) \<Rightarrow>
                 (case singular_loop w lang (findall_desc root ''trans-unit'') tr of
                    (tr', out') \<Rightarrow>
                      (Inr \<lparr>r_translations = tr', r_target_language = lang\<rparr>, out @ out')))))"

definition parse_xliff_file ::
  "filesystem \<Rightarrow> string \<Rightarrow> bool \<Rightarrow> (error + parse_result) \<times> message list" where
  "parse_xliff_file fs file_path warn_on_missing_target =
     (case ET_parse fs file_path of
        Inl e \<Rightarrow> (Inl e, [])
      | Inr root \<Rightarrow> parse_root file_path warn_on_missing_target root)"

subsection \<open>\<^verbatim>\<open>parse_all_xliff_files\<close>\<close>

text \<open>
  A language descriptor is a dict of which the function reads the key \<^verbatim>\<open>'locale'\<close> only.
  The values of \<^verbatim>\<open>setup_generation\<close> and \<^verbatim>\<open>load_glossary_dict\<close> (module
  \<^verbatim>\<open>generate_shared\<close>) are parameters; the function passes them through.
\<close>

record language =
  locale_code :: string                             \<comment> \<open>key \<^verbatim>\<open>'locale'\<close>\<close>
  other_keys :: "(string \<times> string) list"

record 'r setup_values =
  source_language :: language
  rtl_languages :: 'r
  non_translatable_strings_file :: string
  target_languages :: "language list"

record locale_entry =
  l_target_language :: string                       \<comment> \<open>key \<^verbatim>\<open>'target_language'\<close>\<close>
  l_translations :: "(string \<times> entry) list"     \<comment> \<open>key \<^verbatim>\<open>'translations'\<close>\<close>
  language_info :: language

record ('r, 'g) aggregated =
  a_source_language :: language
  a_target_languages :: "language list"
  a_rtl_languages :: 'r
  glossary :: 'g
  locales :: "(string \<times> locale_entry) list"

definition validate_translations :: "(string \<times> entry) list \<Rightarrow> string \<Rightarrow> string list" where
  "validate_translations translations0 locale0 = []"

text \<open>\<^verbatim>\<open>os.path.join(a, b)\<close> (POSIX)\<close>

definition path_join :: "string \<Rightarrow> string \<Rightarrow> string" where
  "path_join a b =
     (if b \<noteq> [] \<and> hd b = CHR ''/'' then b
      else if a = [] \<or> last a = CHR ''/'' then a @ b
      else a @ ''/'' @ b)"

definition input_file :: "string \<Rightarrow> language \<Rightarrow> string" where
  "input_file input_directory language = path_join input_directory (locale_code language @ ''.xliff'')"

text \<open>
  The loop over the languages (lines 142 to 168). The state is
  \<open>(parsed_locales, all_warnings)\<close>.
\<close>

fun locales_loop ::
  "filesystem \<Rightarrow> string \<Rightarrow> language list \<Rightarrow>
     (string \<times> locale_entry) list \<times> (string \<times> string) list \<Rightarrow>
     (error + (string \<times> locale_entry) list \<times> (string \<times> string) list) \<times> message list" where
  "locales_loop fs input_directory [] st = (Inr st, [])"
| "locales_loop fs input_directory (language # rest) (parsed_locales, all_warnings) =
     (let lang_locale = locale_code language;
          inp = input_file input_directory language
      in (if fs inp = None then (Inl (FileNotFoundError inp), [])
          else
            (case parse_xliff_file fs inp True of
               (Inl e, out) \<Rightarrow> (Inl (LocaleError lang_locale e), Parsing lang_locale # out)
             | (Inr result, out) \<Rightarrow>
                 (let warnings = validate_translations (r_translations result) lang_locale;
                      all_warnings' =
                        (if warnings \<noteq> []
                         then all_warnings @ map (\<lambda>w. (lang_locale, w)) warnings
                         else all_warnings);
                      parsed_locales' =
                        AList.update lang_locale
                          \<lparr>l_target_language = r_target_language result,
                           l_translations = r_translations result,
                           language_info = language\<rparr> parsed_locales
                  in (case locales_loop fs input_directory rest (parsed_locales', all_warnings') of
                        (r, out') \<Rightarrow> (r, Parsing lang_locale # out @ out'))))))"

definition parse_all_xliff_files ::
  "filesystem \<Rightarrow> 'r setup_values \<Rightarrow> 'g \<Rightarrow> string \<Rightarrow>
     (error + ('r, 'g) aggregated) \<times> message list" where
  "parse_all_xliff_files fs cfg glossary_dict input_directory =
     (let all_languages = source_language cfg # target_languages cfg
      in (case locales_loop fs input_directory all_languages ([], []) of
            (Inl e, out) \<Rightarrow> (Inl e, out)
          | (Inr (parsed_locales, all_warnings), out) \<Rightarrow>
              (Inr \<lparr>a_source_language = source_language cfg,
                    a_target_languages = target_languages cfg,
                    a_rtl_languages = rtl_languages cfg,
                    glossary = glossary_dict,
                    locales = parsed_locales\<rparr>,
               out @ [Parsed (length parsed_locales)] @
               (if all_warnings \<noteq> []
                then ValidationHeader # map (\<lambda>(l, w). ValidationWarning l w) all_warnings
                else []))))"

section \<open>Notions used to state the properties\<close>

text \<open>The optional text of the child \<open>name\<close> of a unit: absent when the child is.\<close>

definition child_text :: "element \<Rightarrow> string \<Rightarrow> string option" where
  "child_text u name = (case find_elem u name of None \<Rightarrow> None | Some e \<Rightarrow> etext e)"

text \<open>
  The fallback policy in the words of the specification (section 4.4): given an optional
  target text and an optional source text, the text and a flag saying whether fallback
  occurred. Target text is preferred when present and non-empty; otherwise source text
  when present and non-empty; otherwise there is no value.
\<close>

definition present_nonempty :: "string option \<Rightarrow> bool" where
  "present_nonempty x = (x \<noteq> None \<and> x \<noteq> Some [])"

definition spec_fallback_policy :: "string option \<Rightarrow> string option \<Rightarrow> (string \<times> bool) option" where
  "spec_fallback_policy target_text source_text =
     (if present_nonempty target_text then Some (the target_text, False)
      else if present_nonempty source_text then Some (the source_text, True)
      else None)"

text \<open>The resource key of a unit: \<^verbatim>\<open>get('resname') or get('id')\<close>.\<close>

definition unit_key :: "element \<Rightarrow> string option" where
  "unit_key u = py_or (get u ''resname'') (get u ''id'')"

text \<open>The text a unit yields, if any.\<close>

definition unit_text :: "element \<Rightarrow> string option" where
  "unit_text u =
     map_option fst (spec_fallback_policy (child_text u ''target'') (child_text u ''source''))"

text \<open>
  The plural-form marker that the lookup of lines 67 to 73 locates in a unit: the first
  \<open>context\<close> child of type \<open>x-plural-form\<close> of the first \<open>context-group\<close> child.
\<close>

definition plural_form_marker :: "element \<Rightarrow> element option" where
  "plural_form_marker u =
     (case find_elem u ''context-group'' of
        None \<Rightarrow> None
      | Some cg \<Rightarrow> find_attr cg ''context'' ''context-type'' ''x-plural-form'')"

text \<open>The groups and units that \<^verbatim>\<open>parse_xliff_file\<close> visits.\<close>

definition plural_groups :: "element \<Rightarrow> element list" where
  "plural_groups root = findall_desc_attr root ''group'' ''restype'' ''x-gettext-plurals''"

definition all_units :: "element \<Rightarrow> element list" where
  "all_units root = findall_desc root ''trans-unit''"

text \<open>Every \<open>context\<close> element of type \<open>x-plural-form\<close> in the document carries a text.\<close>

definition markers_have_text :: "element \<Rightarrow> bool" where
  "markers_have_text root =
     (\<forall>e \<in> set (descendants root).
        tag e = ns ''context'' \<and> get e ''context-type'' = Some ''x-plural-form''
          \<longrightarrow> etext e \<noteq> None)"

text \<open>
  What a plural group contributes: its key and forms when the loop over its units ends
  with a non-empty key and at least one form.
\<close>

definition group_emits :: "element \<Rightarrow> (string \<times> (string \<times> string) list) option" where
  "group_emits grp =
     (case fst (plural_units_loop False [] (findall grp ''trans-unit'') ([], None)) of
        Inr (plural_forms, Some k) \<Rightarrow>
          (if k \<noteq> [] \<and> plural_forms \<noteq> [] then Some (k, plural_forms) else None)
      | _ \<Rightarrow> None)"

text \<open>The locales of the progress lines among the printed messages.\<close>

fun progress_of :: "message list \<Rightarrow> string list" where
  "progress_of [] = []"
| "progress_of (Parsing l # ms) = l # progress_of ms"
| "progress_of (m # ms) = progress_of ms"

text \<open>A locale whose file exists and is parsed without an exception.\<close>

definition locale_ok :: "filesystem \<Rightarrow> string \<Rightarrow> language \<Rightarrow> bool" where
  "locale_ok fs input_directory language =
     (fs (input_file input_directory language) \<noteq> None \<and>
      (case fst (parse_xliff_file fs (input_file input_directory language) True) of
         Inl e \<Rightarrow> False | Inr r \<Rightarrow> True))"

text \<open>The translations after a group has been handled without an exception.\<close>

definition add_group :: "(string \<times> entry) list \<Rightarrow> element \<Rightarrow> (string \<times> entry) list" where
  "add_group tr grp =
     (case group_emits grp of
        None \<Rightarrow> tr
      | Some (k, plural_forms) \<Rightarrow> AList.update k (PluralEntry plural_forms) tr)"

text \<open>
  A unit in which a marker is located that has no text; a plural group with such a unit;
  a document with such a group.
\<close>

definition unit_fails :: "element \<Rightarrow> bool" where
  "unit_fails u = (case plural_form_marker u of None \<Rightarrow> False | Some pe \<Rightarrow> etext pe = None)"

definition group_fails :: "element \<Rightarrow> bool" where
  "group_fails grp = list_ex unit_fails (findall grp ''trans-unit'')"

definition doc_fails :: "element \<Rightarrow> bool" where
  "doc_fails root = list_ex group_fails (plural_groups root)"

section \<open>Example documents\<close>

definition el :: "string \<Rightarrow> (string \<times> string) list \<Rightarrow> string option \<Rightarrow> element list \<Rightarrow> element" where
  "el name a x cs = Element (ns name) a x cs"

definition xliff_doc :: "string \<Rightarrow> element list \<Rightarrow> element" where
  "xliff_doc lang body =
     el ''xliff'' [(''version'', ''1.2'')] None
       [el ''file'' [(''source-language'', ''en''), (''target-language'', lang)] None
          [el ''body'' [] None body]]"

definition text_unit :: "string \<Rightarrow> string option \<Rightarrow> string option \<Rightarrow> element" where
  "text_unit key src tgt =
     el ''trans-unit'' [(''id'', key)] None [el ''source'' [] src [], el ''target'' [] tgt []]"

definition plural_unit :: "string \<Rightarrow> string option \<Rightarrow> string option \<Rightarrow> string option \<Rightarrow> element" where
  "plural_unit key marker src tgt =
     el ''trans-unit'' [(''id'', key @ ''[0]''), (''resname'', key)] None
       [el ''source'' [] src [], el ''target'' [] tgt [],
        el ''context-group'' [(''purpose'', ''information'')] None
          [el ''context'' [(''context-type'', ''x-plural-form'')] marker []]]"

definition plural_group :: "element list \<Rightarrow> element" where
  "plural_group units = el ''group'' [(''restype'', ''x-gettext-plurals'')] None units"

text \<open>A plural group and a unit that falls back to its source text.\<close>

definition cart_group :: element where
  "cart_group =
     plural_group
       [plural_unit ''cart.count'' (Some ''Plural form: One '') (Some ''1 item'') (Some ''1 article''),
        plural_unit ''cart.count'' (Some ''Plural form: other'') (Some ''%d items'') None]"

definition greeting_unit :: element where
  "greeting_unit = text_unit ''greeting'' (Some ''Hello'') None"

definition doc_cart :: element where
  "doc_cart = xliff_doc ''fr'' [cart_group, greeting_unit, text_unit ''cart.count'' None (Some ''panier'')]"

text \<open>A second plural group with the key of \<open>cart_group\<close>.\<close>

definition cart_group_late :: element where
  "cart_group_late =
     plural_group
       [plural_unit ''cart.count'' (Some ''Plural form: other'') (Some ''items'') (Some ''articles'')]"

text \<open>Two units with the same key, each with a target text.\<close>

definition doc_same_key :: element where
  "doc_same_key =
     xliff_doc ''fr'' [text_unit ''k'' (Some ''src'') (Some ''first''),
                       text_unit ''k'' (Some ''src'') (Some ''second'')]"

text \<open>Two units with the same key, the earlier one with no text at all.\<close>

definition doc_empty_then_text :: element where
  "doc_empty_then_text =
     xliff_doc ''fr'' [text_unit ''a'' None None, text_unit ''a'' None (Some ''x'')]"

text \<open>A plural group whose only unit has a text and no context group.\<close>

definition group_no_marker :: element where
  "group_no_marker =
     plural_group
       [el ''trans-unit'' [(''resname'', ''k'')] None [el ''target'' [] (Some ''x'') []]]"

definition doc_group_no_marker :: element where
  "doc_group_no_marker = xliff_doc ''fr'' [group_no_marker]"

text \<open>A plural group with a marker element that has no text.\<close>

definition doc_empty_marker :: element where
  "doc_empty_marker =
     xliff_doc ''fr'' [plural_group [plural_unit ''k'' None (Some ''src'') (Some ''t'')]]"

text \<open>A configuration that lists the locale of the source language among the targets.\<close>

definition lang_en :: language where
  "lang_en = \<lparr>locale_code = ''en'', other_keys = [(''name'', ''English'')]\<rparr>"

definition lang_fr :: language where
  "lang_fr = \<lparr>locale_code = ''fr'', other_keys = [(''name'', ''French'')]\<rparr>"

definition setup_en_en :: "unit setup_values" where
  "setup_en_en =
     \<lparr>source_language = lang_en, rtl_languages = (),
      non_translatable_strings_file = ''glossary.json'', target_languages = [lang_en]\<rparr>"

definition setup_en_fr :: "unit setup_values" where
  "setup_en_fr =
     \<lparr>source_language = lang_en, rtl_languages = (),
      non_translatable_strings_file = ''glossary.json'', target_languages = [lang_fr]\<rparr>"

definition fs_en :: filesystem where
  "fs_en = [''raw/en.xliff'' \<mapsto> XML (xliff_doc ''en'' [greeting_unit])]"

definition fs_en_fr :: filesystem where
  "fs_en_fr = [''raw/en.xliff'' \<mapsto> XML (xliff_doc ''en'' [greeting_unit]),
               ''raw/fr.xliff'' \<mapsto> XML doc_cart]"

definition fs_en_bad_fr :: filesystem where
  "fs_en_bad_fr = [''raw/en.xliff'' \<mapsto> XML (xliff_doc ''en'' [greeting_unit]),
                   ''raw/fr.xliff'' \<mapsto> XML doc_empty_marker]"

section \<open>The fallback policy on both paths\<close>

lemma truthy_text_child:
  "truthy_text (find_elem u n) =
     (case child_text u n of None \<Rightarrow> None | Some t \<Rightarrow> (if t = [] then None else Some t))"
  by (simp add: truthy_text_def child_text_def split: option.splits)

lemma policy_truthy:
  "spec_fallback_policy (child_text u ''target'') (child_text u ''source'') =
     (case truthy_text (find_elem u ''target'') of
        Some t \<Rightarrow> Some (t, False)
      | None \<Rightarrow> (case truthy_text (find_elem u ''source'') of
                   Some s \<Rightarrow> Some (s, True)
                 | None \<Rightarrow> None))"
  by (simp add: truthy_text_child spec_fallback_policy_def present_nonempty_def
        split: option.splits)

lemma singular_step_policy:
  assumes "unit_key u = Some k" and "k \<notin> fst ` set tr"
  shows "singular_step w lang u tr =
     (case spec_fallback_policy (child_text u ''target'') (child_text u ''source'') of
        None \<Rightarrow> (tr, [])
      | Some (x, fb) \<Rightarrow>
          (AList.update k (StringEntry x) tr, if fb \<and> w then [StringWarning k lang] else []))"
  using assms
  by (simp add: singular_step_def unit_key_def policy_truthy split: option.splits)

lemma singular_step_no_key:
  "unit_key u = None \<Longrightarrow> singular_step w lang u tr = (tr, [])"
  by (simp add: singular_step_def unit_key_def)

lemma singular_step_claimed:
  "unit_key u = Some k \<Longrightarrow> k \<in> fst ` set tr \<Longrightarrow> singular_step w lang u tr = (tr, [])"
  by (simp add: singular_step_def unit_key_def)

lemma marker_located:
  assumes "plural_form_marker m = Some pe"
  obtains cg where "find_elem m ''context-group'' = Some cg"
    and "find_attr cg ''context'' ''context-type'' ''x-plural-form'' = Some pe"
  using assms by (auto simp add: plural_form_marker_def split: option.splits)

lemma plural_unit_step_policy:
  assumes "plural_form_marker m = Some pe" and "etext pe = Some t"
  shows "plural_unit_step w lang m (pf, rn) =
     (let rn' = (if rn = None then unit_key m else rn);
          form = py_lower (py_strip (last (py_split CHR '':'' t)))
      in (case spec_fallback_policy (child_text m ''target'') (child_text m ''source'') of
            None \<Rightarrow> (Inr (pf, rn'), [])
          | Some (x, fb) \<Rightarrow>
              (Inr (AList.update form x pf, rn'),
               if fb \<and> w then [PluralWarning form rn' lang] else [])))"
proof -
  from assms(1) obtain cg where "find_elem m ''context-group'' = Some cg"
    and "find_attr cg ''context'' ''context-type'' ''x-plural-form'' = Some pe"
    by (rule marker_located)
  with assms(2) show ?thesis
    by (auto simp add: unit_key_def policy_truthy Let_def split: option.splits)
qed

lemma plural_unit_step_no_marker:
  assumes "plural_form_marker m = None"
  shows "plural_unit_step w lang m (pf, rn) = (Inr (pf, if rn = None then unit_key m else rn), [])"
proof (cases "find_elem m ''context-group''")
  case None
  then show ?thesis by (simp add: unit_key_def Let_def)
next
  case (Some cg)
  with assms have "find_attr cg ''context'' ''context-type'' ''x-plural-form'' = None"
    by (simp add: plural_form_marker_def)
  with Some show ?thesis by (simp add: unit_key_def Let_def)
qed

lemma plural_unit_step_no_text:
  assumes "plural_form_marker m = Some pe" and "etext pe = None"
  shows "plural_unit_step w lang m (pf, rn) = (Inl AttributeError, [])"
proof -
  from assms(1) obtain cg where "find_elem m ''context-group'' = Some cg"
    and "find_attr cg ''context'' ''context-type'' ''x-plural-form'' = Some pe"
    by (rule marker_located)
  with assms(2) show ?thesis by (simp add: Let_def)
qed


section \<open>The plural-form identifier\<close>

lemma py_split_nonempty: "py_split sep s \<noteq> []"
  by (induction s) (auto split: list.splits)

lemma py_split_no_sep: "sep \<notin> set s \<Longrightarrow> py_split sep s = [s]"
  by (induction s) auto

lemma py_split_at_sep: "py_split sep (a @ sep # b) = py_split sep a @ py_split sep b"
proof (induction a)
  case Nil
  show ?case by simp
next
  case (Cons c a)
  obtain w ws where "py_split sep a = w # ws"
    using py_split_nonempty [of sep a] by (cases "py_split sep a") auto
  with Cons show ?case by simp
qed

lemma last_py_split:
  assumes "sep \<notin> set b"
  shows "last (py_split sep (a @ sep # b)) = b"
  using assms by (simp add: py_split_at_sep py_split_nonempty py_split_no_sep)

lemma plural_unit_step_text:
  assumes "plural_form_marker m = Some pe" and "etext pe = Some t"
  shows "plural_unit_step w lang m (pf, rn) =
     (Inr (case unit_text m of
             None \<Rightarrow> pf
           | Some x \<Rightarrow> AList.update (py_lower (py_strip (last (py_split CHR '':'' t)))) x pf,
           if rn = None then unit_key m else rn),
      if w \<and> map_option snd (spec_fallback_policy (child_text m ''target'') (child_text m ''source'')) = Some True
      then [PluralWarning (py_lower (py_strip (last (py_split CHR '':'' t)))) (if rn = None then unit_key m else rn) lang]
      else [])"
  unfolding plural_unit_step_policy [OF assms] unit_text_def Let_def
  by (cases "spec_fallback_policy (child_text m ''target'') (child_text m ''source'')") auto

lemma singular_step_text:
  assumes "unit_key u = Some k" and "k \<notin> fst ` set tr"
  shows "singular_step w lang u tr =
     (case unit_text u of None \<Rightarrow> tr | Some x \<Rightarrow> AList.update k (StringEntry x) tr,
      if w \<and> map_option snd (spec_fallback_policy (child_text u ''target'') (child_text u ''source'')) = Some True
      then [StringWarning k lang] else [])"
  unfolding singular_step_policy [OF assms] unit_text_def
  by (cases "spec_fallback_policy (child_text u ''target'') (child_text u ''source'')") auto

text \<open>
  C7. A unit of a plural group in which no marker is located leaves the forms unchanged.
  A unit with a located marker writes its text, if it yields one, under the key obtained
  from the marker's text: the part after the last colon (the whole text when there is no
  colon), stripped and lower-cased; it writes under no other key.
\<close>

theorem plural_form_identifier:
  "(plural_form_marker m = None \<longrightarrow>
      plural_unit_step w lang m (pf, rn) = (Inr (pf, if rn = None then unit_key m else rn), []))
   \<and>
   (plural_form_marker m = Some pe \<and>
    (etext pe = Some (a @ CHR '':'' # b) \<and> CHR '':'' \<notin> set b \<or>
     etext pe = Some b \<and> CHR '':'' \<notin> set b) \<longrightarrow>
      fst (plural_unit_step w lang m (pf, rn)) =
        Inr (case unit_text m of
               None \<Rightarrow> pf
             | Some x \<Rightarrow> AList.update (py_lower (py_strip b)) x pf,
             if rn = None then unit_key m else rn))"
proof (intro conjI impI)
  assume "plural_form_marker m = None"
  then show "plural_unit_step w lang m (pf, rn) =
      (Inr (pf, if rn = None then unit_key m else rn), [])"
    by (rule plural_unit_step_no_marker)
next
  assume h: "plural_form_marker m = Some pe \<and>
    (etext pe = Some (a @ CHR '':'' # b) \<and> CHR '':'' \<notin> set b \<or>
     etext pe = Some b \<and> CHR '':'' \<notin> set b)"
  then have m: "plural_form_marker m = Some pe" and b: "CHR '':'' \<notin> set b"
    by auto
  from h consider "etext pe = Some (a @ CHR '':'' # b)" | "etext pe = Some b"
    by auto
  then show "fst (plural_unit_step w lang m (pf, rn)) =
        Inr (case unit_text m of
               None \<Rightarrow> pf
             | Some x \<Rightarrow> AList.update (py_lower (py_strip b)) x pf,
             if rn = None then unit_key m else rn)"
  proof cases
    case 1
    show ?thesis
      unfolding plural_unit_step_text [OF m 1] last_py_split [OF b] by simp
  next
    case 2
    show ?thesis
      unfolding plural_unit_step_text [OF m 2] py_split_no_sep [OF b]
      by (simp cong: option.case_cong)
  qed
qed

theorem plural_form_identifier_witness:
  "fst (plural_unit_step True ''fr''
        (plural_unit ''cart.count'' (Some ''Plural form: One '') (Some ''1 item'') (Some ''1 article''))
        ([], None)) =
     Inr ([(''one'', ''1 article'')], Some ''cart.count'')
   \<and> plural_unit_step True ''fr'' (text_unit ''cart.count'' (Some ''1 item'') (Some ''1 article''))
        ([], None) = (Inr ([], Some ''cart.count''), [])"
proof -
  let ?m = "plural_unit ''cart.count'' (Some ''Plural form: One '') (Some ''1 item'') (Some ''1 article'')"
  let ?pe = "el ''context'' [(''context-type'', ''x-plural-form'')] (Some ''Plural form: One '') []"
  let ?n = "text_unit ''cart.count'' (Some ''1 item'') (Some ''1 article'')"
  have n: "plural_form_marker ?n = None"
    by code_simp
  have m: "plural_form_marker ?m = Some ?pe \<and>
      (etext ?pe = Some (''Plural form'' @ CHR '':'' # '' One '') \<and> CHR '':'' \<notin> set '' One '' \<or>
       etext ?pe = Some '' One '' \<and> CHR '':'' \<notin> set '' One '')"
    by code_simp
  have e: "unit_text ?m = Some ''1 article''" "py_lower (py_strip '' One '') = ''one''"
      "unit_key ?m = Some ''cart.count''" "unit_key ?n = Some ''cart.count''"
      "AList.update ''one'' ''1 article'' [] = [(''one'', ''1 article'')]"
    by code_simp+
  have A: "plural_unit_step True ''fr'' ?n ([], None) =
      (Inr ([], if (None :: string option) = None then unit_key ?n else None), [])"
    using plural_form_identifier [where m = ?n and w = True and lang = "''fr''" and pf = "[]"
        and rn = None, THEN conjunct1] n by blast
  have B: "fst (plural_unit_step True ''fr'' ?m ([], None)) =
      Inr (case unit_text ?m of None \<Rightarrow> []
           | Some x \<Rightarrow> AList.update (py_lower (py_strip '' One '')) x [],
           if (None :: string option) = None then unit_key ?m else None)"
    using plural_form_identifier [where m = ?m and pe = ?pe and a = "''Plural form''"
        and b = "'' One ''" and w = True and lang = "''fr''" and pf = "[]" and rn = None,
        THEN conjunct2] m by blast
  show ?thesis unfolding A B e by simp
qed

section \<open>The same decision on both paths\<close>

text \<open>
  C8. Take a unit that the second loop handles (its key is resolved and not yet in the
  translations) and a unit of a plural group with a located marker that has a text, with
  the same optional target text and the same optional source text, in any state of the
  forms. Both loops store the same text, one under the key and the other under the form,
  or both store nothing, and one prints a warning exactly when the other does: both
  follow the policy of the specification.
\<close>

theorem same_decision_on_both_paths:
  assumes "unit_key u = Some k" and "k \<notin> fst ` set tr"
    and "plural_form_marker m = Some pe" and "etext pe = Some t"
    and "form = py_lower (py_strip (last (py_split CHR '':'' t)))"
    and "child_text m ''target'' = target_text" and "child_text u ''target'' = target_text"
    and "child_text m ''source'' = source_text" and "child_text u ''source'' = source_text"
  shows "\<exists>pf' key outp tr' outs.
      plural_unit_step w lang m (pf, rn) = (Inr (pf', key), outp) \<and>
      singular_step w lang u tr = (tr', outs) \<and>
      pf' = (case spec_fallback_policy target_text source_text of
               None \<Rightarrow> pf
             | Some (x, fb) \<Rightarrow> AList.update form x pf) \<and>
      tr' = (case spec_fallback_policy target_text source_text of
               None \<Rightarrow> tr
             | Some (x, fb) \<Rightarrow> AList.update k (StringEntry x) tr) \<and>
      map_of pf' form =
        (case spec_fallback_policy target_text source_text of
           None \<Rightarrow> map_of pf form
         | Some (x, fb) \<Rightarrow> Some x) \<and>
      map_of tr' k = map_option (StringEntry \<circ> fst) (spec_fallback_policy target_text source_text) \<and>
      (outp \<noteq> [] \<longleftrightarrow> w \<and> map_option snd (spec_fallback_policy target_text source_text) = Some True) \<and>
      (outs \<noteq> [] \<longleftrightarrow> w \<and> map_option snd (spec_fallback_policy target_text source_text) = Some True)"
proof -
  have tr: "map_of tr k = None"
    using assms(2) by (simp add: map_of_eq_None_iff)
  show ?thesis
    unfolding plural_unit_step_text [OF assms(3,4)] singular_step_text [OF assms(1,2)]
      unit_text_def assms(5) [symmetric] assms(6,7,8,9)
    using tr
    by (cases "spec_fallback_policy target_text source_text") (auto simp add: AList.update_conv')
qed

theorem same_decision_on_both_paths_witness:
  "\<exists>pf' key outp tr' outs.
      plural_unit_step True ''fr''
        (plural_unit ''cart.count'' (Some ''Plural form: other'') (Some ''Hello'') None)
        ([(''other'', ''old'')], None) = (Inr (pf', key), outp) \<and>
      singular_step True ''fr'' greeting_unit [] = (tr', outs) \<and>
      pf' = [(''other'', ''Hello'')] \<and>
      tr' = [(''greeting'', StringEntry ''Hello'')] \<and>
      outp \<noteq> [] \<and> outs \<noteq> []"
proof -
  let ?m = "plural_unit ''cart.count'' (Some ''Plural form: other'') (Some ''Hello'') None"
  let ?pe = "el ''context'' [(''context-type'', ''x-plural-form'')] (Some ''Plural form: other'') []"
  have h: "unit_key greeting_unit = Some ''greeting''"
      "''greeting'' \<notin> fst ` set ([] :: (string \<times> entry) list)"
      "plural_form_marker ?m = Some ?pe" "etext ?pe = Some ''Plural form: other''"
      "''other'' = py_lower (py_strip (last (py_split CHR '':'' ''Plural form: other'')))"
      "child_text ?m ''target'' = None" "child_text greeting_unit ''target'' = None"
      "child_text ?m ''source'' = Some ''Hello''" "child_text greeting_unit ''source'' = Some ''Hello''"
    by code_simp+
  have p: "spec_fallback_policy None (Some ''Hello'') = Some (''Hello'', True)"
    by code_simp
  from same_decision_on_both_paths [OF h, of True "''fr''" "[(''other'', ''old'')]" None]
  show ?thesis by (simp add: p) blast
qed

section \<open>The loop over the remaining units\<close>

lemma in_keys_iff: "k \<in> fst ` set tr \<longleftrightarrow> map_of tr k \<noteq> None"
  by (simp add: map_of_eq_None_iff)

lemma singular_step_map:
  "map_of (fst (singular_step w lang u tr)) k =
     (case map_of tr k of
        Some e \<Rightarrow> Some e
      | None \<Rightarrow> (if unit_key u = Some k then map_option StringEntry (unit_text u) else None))"
proof (cases "unit_key u")
  case None
  then show ?thesis by (simp add: singular_step_no_key split: option.splits)
next
  case (Some k')
  show ?thesis
  proof (cases "k' \<in> fst ` set tr")
    case True
    with Some show ?thesis
      by (auto simp add: singular_step_claimed in_keys_iff split: option.splits)
  next
    case False
    with Some show ?thesis
      by (auto simp add: singular_step_text in_keys_iff AList.update_conv' split: option.splits)
  qed
qed

lemma singular_step_distinct:
  "distinct (map fst tr) \<Longrightarrow> distinct (map fst (fst (singular_step w lang u tr)))"
  by (simp add: singular_step_def AList.distinct_update Let_def split: option.splits)

lemma singular_loop_Cons_fst:
  "fst (singular_loop w lang (u # us) tr) =
     fst (singular_loop w lang us (fst (singular_step w lang u tr)))"
  by (simp split: prod.splits)

lemma singular_loop_map:
  "map_of (fst (singular_loop w lang us tr)) k =
     (case map_of tr k of
        Some e \<Rightarrow> Some e
      | None \<Rightarrow>
          (case List.find (\<lambda>u. unit_key u = Some k \<and> unit_text u \<noteq> None) us of
             None \<Rightarrow> None
           | Some u \<Rightarrow> map_option StringEntry (unit_text u)))"
proof (induction us arbitrary: tr)
  case Nil
  show ?case by (simp split: option.splits)
next
  case (Cons u us)
  obtain tr1 out1 where s: "singular_step w lang u tr = (tr1, out1)"
    by (cases "singular_step w lang u tr")
  obtain tr2 out2 where l: "singular_loop w lang us tr1 = (tr2, out2)"
    by (cases "singular_loop w lang us tr1")
  have m: "map_of tr1 k =
     (case map_of tr k of
        Some e \<Rightarrow> Some e
      | None \<Rightarrow> (if unit_key u = Some k then map_option StringEntry (unit_text u) else None))"
    using singular_step_map [of w lang u tr k] s by simp
  have "map_of tr2 k =
     (case map_of tr1 k of
        Some e \<Rightarrow> Some e
      | None \<Rightarrow>
          (case List.find (\<lambda>u. unit_key u = Some k \<and> unit_text u \<noteq> None) us of
             None \<Rightarrow> None
           | Some u \<Rightarrow> map_option StringEntry (unit_text u)))"
    using Cons.IH [of tr1] l by simp
  with m s l show ?case
    by (auto split: option.splits)
qed

lemma singular_loop_distinct:
  "distinct (map fst tr) \<Longrightarrow> distinct (map fst (fst (singular_loop w lang us tr)))"
proof (induction us arbitrary: tr)
  case Nil
  then show ?case by simp
next
  case (Cons u us)
  from Cons.IH [OF singular_step_distinct [OF Cons.prems, of w lang u]]
  show ?case by (simp only: singular_loop_Cons_fst)
qed


section \<open>The loops over the plural groups\<close>

declare plural_unit_step.simps [simp del]

lemma plural_unit_step_fails:
  "unit_fails u \<Longrightarrow> plural_unit_step w lang u (pf, rn) = (Inl AttributeError, [])"
  by (auto simp add: unit_fails_def plural_unit_step_no_text split: option.splits)

lemma plural_unit_step_succeeds:
  assumes "\<not> unit_fails u"
  shows "\<exists>pf'. fst (plural_unit_step w lang u (pf, rn)) =
           Inr (pf', if rn = None then unit_key u else rn)"
proof (cases "plural_form_marker u")
  case None
  then show ?thesis by (simp add: plural_unit_step_no_marker)
next
  case (Some pe)
  with assms obtain t where "etext pe = Some t"
    by (auto simp add: unit_fails_def)
  with Some show ?thesis by (simp add: plural_unit_step_text)
qed

lemma plural_unit_step_fst:
  "fst (plural_unit_step w lang u st) = fst (plural_unit_step w' lang' u st)"
proof (cases st)
  case (Pair pf rn)
  show ?thesis
  proof (cases "plural_form_marker u")
    case None
    with Pair show ?thesis by (simp add: plural_unit_step_no_marker)
  next
    case (Some pe)
    with Pair show ?thesis
      by (cases "etext pe") (simp_all add: plural_unit_step_no_text plural_unit_step_text)
  qed
qed

lemma plural_units_loop_Cons_fst:
  "fst (plural_units_loop w lang (u # us) st) =
     (case fst (plural_unit_step w lang u st) of
        Inl e \<Rightarrow> Inl e
      | Inr st' \<Rightarrow> fst (plural_units_loop w lang us st'))"
  by (simp split: prod.splits sum.splits)

lemma plural_units_loop_fst:
  "fst (plural_units_loop w lang us st) = fst (plural_units_loop w' lang' us st)"
proof (induction us arbitrary: st)
  case Nil
  show ?case by simp
next
  case (Cons u us)
  show ?case
    unfolding plural_units_loop_Cons_fst plural_unit_step_fst [of w lang u st w' lang']
    by (simp add: Cons.IH split: sum.splits)
qed

lemma plural_units_loop_result:
  "fst (plural_units_loop w lang us st) = Inl AttributeError \<and> list_ex unit_fails us \<or>
   (\<exists>st'. fst (plural_units_loop w lang us st) = Inr st') \<and> \<not> list_ex unit_fails us"
proof (induction us arbitrary: st)
  case Nil
  show ?case by simp
next
  case (Cons u us)
  obtain pf rn where st: "st = (pf, rn)" by (cases st)
  show ?case
  proof (cases "unit_fails u")
    case True
    then show ?thesis
      unfolding plural_units_loop_Cons_fst st by (simp add: plural_unit_step_fails)
  next
    case False
    from plural_unit_step_succeeds [OF False, of w lang pf rn]
    obtain pf' where "fst (plural_unit_step w lang u (pf, rn)) =
        Inr (pf', if rn = None then unit_key u else rn)" ..
    with False Cons.IH [of "(pf', if rn = None then unit_key u else rn)"] show ?thesis
      unfolding plural_units_loop_Cons_fst st by simp
  qed
qed

lemma plural_unit_step_quiet:
  assumes "plural_unit_step w lang u (pf, rn) = (Inr (pf', rn'), out)"
  shows "(pf \<noteq> [] \<or> out \<noteq> []) \<longrightarrow> pf' \<noteq> []"
proof (cases "plural_form_marker u")
  case None
  with assms show ?thesis by (simp add: plural_unit_step_no_marker)
next
  case (Some pe)
  show ?thesis
  proof (cases "etext pe")
    case None
    with Some assms show ?thesis by (simp add: plural_unit_step_no_text)
  next
    case (Some t)
    from assms have pf': "pf' = (case unit_text u of None \<Rightarrow> pf
          | Some x \<Rightarrow> AList.update (py_lower (py_strip (last (py_split CHR '':'' t)))) x pf)"
      and out: "out = (if w \<and> map_option snd (spec_fallback_policy (child_text u ''target'')
          (child_text u ''source'')) = Some True
        then [PluralWarning (py_lower (py_strip (last (py_split CHR '':'' t))))
                (if rn = None then unit_key u else rn) lang]
        else [])"
      unfolding plural_unit_step_text [OF \<open>plural_form_marker u = Some pe\<close> Some]
      by simp_all
    show ?thesis
    proof (cases "unit_text u")
      case None
      then have "spec_fallback_policy (child_text u ''target'') (child_text u ''source'') = None"
        by (simp add: unit_text_def)
      with None pf' out show ?thesis by simp
    next
      case (Some x)
      with pf' show ?thesis by simp
    qed
  qed
qed

lemma plural_units_loop_quiet:
  "plural_units_loop w lang us (pf, rn) = (Inr (pf', rn'), out) \<Longrightarrow>
     pf \<noteq> [] \<or> out \<noteq> [] \<Longrightarrow> pf' \<noteq> []"
proof (induction us arbitrary: pf rn out)
  case Nil
  then show ?case by simp
next
  case (Cons u us)
  from Cons.prems(1) obtain pf1 rn1 out1 out2
    where s: "plural_unit_step w lang u (pf, rn) = (Inr (pf1, rn1), out1)"
      and l: "plural_units_loop w lang us (pf1, rn1) = (Inr (pf', rn'), out2)"
      and o: "out = out1 @ out2"
    by (auto split: prod.splits sum.splits)
  from plural_unit_step_quiet [OF s] Cons.prems(2) o have "pf1 \<noteq> [] \<or> out2 \<noteq> []"
    by auto
  with Cons.IH [OF l] show ?case by simp
qed


lemma plural_group_step_snd:
  "snd (plural_group_step w lang g tr) =
     snd (plural_units_loop w lang (findall g ''trans-unit'') ([], None))"
  by (simp add: plural_group_step_def split: prod.splits sum.splits option.splits)

lemma plural_group_step_fst:
  "fst (plural_group_step w lang g tr) =
     (if group_fails g then Inl AttributeError else Inr (add_group tr g))"
proof -
  let ?us = "findall g ''trans-unit''"
  from plural_units_loop_result [of w lang ?us "([], None)"]
  consider "fst (plural_units_loop w lang ?us ([], None)) = Inl AttributeError" "group_fails g"
    | pf rn where "fst (plural_units_loop w lang ?us ([], None)) = Inr (pf, rn)" "\<not> group_fails g"
    by (auto simp add: group_fails_def)
  then show ?thesis
  proof cases
    case 1
    then show ?thesis
      by (auto simp add: plural_group_step_def split: prod.splits sum.splits)
  next
    case 2
    from 2(1) have "fst (plural_units_loop False [] ?us ([], None)) = Inr (pf, rn)"
      by (simp add: plural_units_loop_fst [of False "[]" ?us _ w lang])
    then have "add_group tr g =
        (case rn of None \<Rightarrow> tr
         | Some k \<Rightarrow> if k \<noteq> [] \<and> pf \<noteq> [] then AList.update k (PluralEntry pf) tr else tr)"
      by (simp add: add_group_def group_emits_def split: option.splits)
    with 2 show ?thesis
      by (auto simp add: plural_group_step_def split: prod.splits sum.splits option.splits)
  qed
qed

lemma plural_groups_loop_Cons_fst:
  "fst (plural_groups_loop w lang (g # gs) tr) =
     (case fst (plural_group_step w lang g tr) of
        Inl e \<Rightarrow> Inl e
      | Inr tr' \<Rightarrow> fst (plural_groups_loop w lang gs tr'))"
  by (simp split: prod.splits sum.splits)

lemma plural_groups_loop_fst:
  "fst (plural_groups_loop w lang gs tr) =
     (if list_ex group_fails gs then Inl AttributeError else Inr (foldl add_group tr gs))"
proof (induction gs arbitrary: tr)
  case Nil
  show ?case by simp
next
  case (Cons g gs)
  show ?case
    unfolding plural_groups_loop_Cons_fst plural_group_step_fst
    by (simp add: Cons.IH)
qed

lemma group_emits_nonempty: "group_emits g = Some (k, f) \<Longrightarrow> k \<noteq> [] \<and> f \<noteq> []"
  by (auto simp add: group_emits_def split: sum.splits option.splits if_splits)

lemma add_group_map:
  "map_of (add_group tr g) k =
     (case group_emits g of
        None \<Rightarrow> map_of tr k
      | Some (k', f) \<Rightarrow> if k' = k then Some (PluralEntry f) else map_of tr k)"
  by (simp add: add_group_def AList.update_conv' split: option.splits)

lemma add_group_distinct: "distinct (map fst tr) \<Longrightarrow> distinct (map fst (add_group tr g))"
  by (simp add: add_group_def AList.distinct_update split: option.splits)

lemma foldl_add_group_distinct:
  "distinct (map fst tr) \<Longrightarrow> distinct (map fst (foldl add_group tr gs))"
  by (induction gs arbitrary: tr) (simp_all add: add_group_distinct)

lemma foldl_add_group_keep:
  "\<forall>g \<in> set gs. \<forall>f. group_emits g \<noteq> Some (k, f) \<Longrightarrow>
     map_of (foldl add_group tr gs) k = map_of tr k"
proof (induction gs arbitrary: tr)
  case Nil
  show ?case by simp
next
  case (Cons g gs)
  then have "map_of (add_group tr g) k = map_of tr k"
    by (auto simp add: add_group_map split: option.splits)
  with Cons show ?case by simp
qed

lemma foldl_add_group_last:
  assumes "group_emits g = Some (k, f)"
    and "\<forall>g' \<in> set gs'. \<forall>f'. group_emits g' \<noteq> Some (k, f')"
  shows "map_of (foldl add_group tr (gs @ g # gs')) k = Some (PluralEntry f)"
  using assms by (simp add: foldl_add_group_keep add_group_map)

lemma foldl_add_group_origin:
  "map_of (foldl add_group tr gs) k = Some e \<Longrightarrow>
     map_of tr k = Some e \<or> (\<exists>g \<in> set gs. \<exists>f. group_emits g = Some (k, f) \<and> e = PluralEntry f)"
proof (induction gs arbitrary: tr)
  case Nil
  then show ?case by simp
next
  case (Cons g gs)
  from Cons.prems have "map_of (foldl add_group (add_group tr g) gs) k = Some e"
    by simp
  from Cons.IH [OF this] show ?case
    by (auto simp add: add_group_map split: option.splits if_splits)
qed

section \<open>The fallback trichotomy\<close>

lemma plural_units_loop_key_kept:
  "fst (plural_units_loop w lang us (pf, Some k)) = Inr (pf', rn') \<Longrightarrow> rn' = Some k"
proof (induction us arbitrary: pf)
  case Nil
  then show ?case by simp
next
  case (Cons u us)
  show ?case
  proof (cases "unit_fails u")
    case True
    with Cons.prems show ?thesis
      unfolding plural_units_loop_Cons_fst by (simp add: plural_unit_step_fails)
  next
    case False
    from plural_unit_step_succeeds [OF False, of w lang pf "Some k"]
    obtain pf1 where "fst (plural_unit_step w lang u (pf, Some k)) = Inr (pf1, Some k)"
      by auto
    with Cons.prems have "fst (plural_units_loop w lang us (pf1, Some k)) = Inr (pf', rn')"
      unfolding plural_units_loop_Cons_fst by simp
    then show ?thesis by (rule Cons.IH)
  qed
qed

text \<open>
  C1 (as amended). A unit that the second loop visits with a resolved key that is not yet
  in the translations, and a unit of a plural group with a located marker that has a text,
  handled with a resolved key (the value of \<open>resname\<close> after line 63 is not \<open>None\<close>),
  follow the fallback trichotomy: a present, non-empty target text is stored and nothing
  is printed; otherwise a present, non-empty source text is stored and exactly one
  warning naming that key is printed when warnings are enabled; otherwise nothing is
  stored for the unit. The key of a unit of a plural group, once resolved, is the key
  that the loop over the units of the group ends with.
\<close>

theorem fallback_trichotomy:
  "(unit_key u = Some k \<and> k \<notin> fst ` set tr \<longrightarrow>
      singular_step w lang u tr =
        (if present_nonempty (child_text u ''target'')
         then (AList.update k (StringEntry (the (child_text u ''target''))) tr, [])
         else if present_nonempty (child_text u ''source'')
         then (AList.update k (StringEntry (the (child_text u ''source''))) tr,
               if w then [StringWarning k lang] else [])
         else (tr, [])))
   \<and>
   (plural_form_marker m = Some pe \<and> etext pe = Some t \<and>
    (if rn = None then unit_key m else rn) = Some key \<and>
    form = py_lower (py_strip (last (py_split CHR '':'' t))) \<longrightarrow>
      plural_unit_step w lang m (pf, rn) =
        (if present_nonempty (child_text m ''target'')
         then (Inr (AList.update form (the (child_text m ''target'')) pf, Some key), [])
         else if present_nonempty (child_text m ''source'')
         then (Inr (AList.update form (the (child_text m ''source'')) pf, Some key),
               if w then [PluralWarning form (Some key) lang] else [])
         else (Inr (pf, Some key), [])))
   \<and>
   (fst (plural_units_loop w lang us (pf1, Some key)) = Inr (pf2, rn2) \<longrightarrow> rn2 = Some key)"
proof (intro conjI impI)
  assume "unit_key u = Some k \<and> k \<notin> fst ` set tr"
  then show "singular_step w lang u tr =
        (if present_nonempty (child_text u ''target'')
         then (AList.update k (StringEntry (the (child_text u ''target''))) tr, [])
         else if present_nonempty (child_text u ''source'')
         then (AList.update k (StringEntry (the (child_text u ''source''))) tr,
               if w then [StringWarning k lang] else [])
         else (tr, []))"
    by (simp add: singular_step_policy spec_fallback_policy_def)
next
  assume "plural_form_marker m = Some pe \<and> etext pe = Some t \<and>
    (if rn = None then unit_key m else rn) = Some key \<and>
    form = py_lower (py_strip (last (py_split CHR '':'' t)))"
  then have 1: "plural_form_marker m = Some pe" and 2: "etext pe = Some t"
    and 3: "(if rn = None then unit_key m else rn) = Some key"
    and 4: "form = py_lower (py_strip (last (py_split CHR '':'' t)))"
    by simp_all
  show "plural_unit_step w lang m (pf, rn) =
        (if present_nonempty (child_text m ''target'')
         then (Inr (AList.update form (the (child_text m ''target'')) pf, Some key), [])
         else if present_nonempty (child_text m ''source'')
         then (Inr (AList.update form (the (child_text m ''source'')) pf, Some key),
               if w then [PluralWarning form (Some key) lang] else [])
         else (Inr (pf, Some key), []))"
    unfolding plural_unit_step_policy [OF 1 2] 3 4 Let_def
    by (simp add: spec_fallback_policy_def)
next
  assume "fst (plural_units_loop w lang us (pf1, Some key)) = Inr (pf2, rn2)"
  then show "rn2 = Some key"
    by (rule plural_units_loop_key_kept)
qed

theorem fallback_trichotomy_witness:
  "singular_step True ''fr'' greeting_unit [] =
     ([(''greeting'', StringEntry ''Hello'')], [StringWarning ''greeting'' ''fr''])
   \<and> plural_unit_step True ''fr''
        (plural_unit ''cart.count'' (Some ''Plural form: other'') (Some ''%d items'') None)
        ([(''one'', ''1 article'')], None) =
     (Inr ([(''one'', ''1 article''), (''other'', ''%d items'')], Some ''cart.count''),
      [PluralWarning ''other'' (Some ''cart.count'') ''fr''])
   \<and> fst (plural_units_loop True ''fr'' [greeting_unit] ([], Some ''cart.count'')) =
        Inr ([], Some ''cart.count'')"
proof -
  let ?m = "plural_unit ''cart.count'' (Some ''Plural form: other'') (Some ''%d items'') None"
  let ?pe = "el ''context'' [(''context-type'', ''x-plural-form'')] (Some ''Plural form: other'') []"
  have k: "unit_key greeting_unit = Some ''greeting'' \<and> ''greeting'' \<notin> fst ` set ([] :: (string \<times> entry) list)"
    by code_simp
  have m: "plural_form_marker ?m = Some ?pe \<and> etext ?pe = Some ''Plural form: other'' \<and>
      (if (None :: string option) = None then unit_key ?m else None) = Some ''cart.count'' \<and>
      ''other'' = py_lower (py_strip (last (py_split CHR '':'' ''Plural form: other'')))"
    by code_simp
  have s: "present_nonempty (child_text greeting_unit ''target'') = False"
      "present_nonempty (child_text greeting_unit ''source'') = True"
      "the (child_text greeting_unit ''source'') = ''Hello''"
      "present_nonempty (child_text ?m ''target'') = False"
      "present_nonempty (child_text ?m ''source'') = True"
      "the (child_text ?m ''source'') = ''%d items''"
    by code_simp+
  have u: "AList.update ''greeting'' (StringEntry ''Hello'') [] = [(''greeting'', StringEntry ''Hello'')]"
       "AList.update ''other'' ''%d items'' [(''one'', ''1 article'')] = [(''one'', ''1 article''), (''other'', ''%d items'')]"
    by code_simp+
  have l: "fst (plural_units_loop True ''fr'' [greeting_unit] ([], Some ''cart.count'')) =
      Inr ([], Some ''cart.count'')"
    by code_simp
  note T = fallback_trichotomy [where u = greeting_unit and k = "''greeting''" and tr = "[]"
      and w = True and lang = "''fr''" and m = ?m and pe = ?pe and t = "''Plural form: other''"
      and rn = None and key = "''cart.count''" and form = "''other''"
      and pf = "[(''one'', ''1 article'')]" and us = "[greeting_unit]" and ?pf1.0 = "[]"
      and ?pf2.0 = "[]" and ?rn2.0 = "Some ''cart.count''"]
  have 1: "singular_step True ''fr'' greeting_unit [] =
     ([(''greeting'', StringEntry ''Hello'')], [StringWarning ''greeting'' ''fr''])"
    using T [THEN conjunct1, THEN mp, OF k] by (simp only: s u if_True if_False)
  have 2: "plural_unit_step True ''fr'' ?m ([(''one'', ''1 article'')], None) =
     (Inr ([(''one'', ''1 article''), (''other'', ''%d items'')], Some ''cart.count''),
      [PluralWarning ''other'' (Some ''cart.count'') ''fr''])"
    using T [THEN conjunct2, THEN conjunct1, THEN mp, OF m] by (simp only: s u if_True if_False)
  have "Some ''cart.count'' = Some ''cart.count''"
    by (rule T [THEN conjunct2, THEN conjunct2, THEN mp, OF l])
  show ?thesis by (intro conjI 1 2 l)
qed

text \<open>
  C1 as stated fails for a unit whose key is already in the translations: the second unit
  of \<open>doc_same_key\<close> has the resolved key \<open>k\<close> and the non-empty target text
  \<open>second\<close>, and its text is not used.
\<close>

theorem later_unit_with_target_not_used:
  "unit_key (text_unit ''k'' (Some ''src'') (Some ''second'')) = Some ''k''
   \<and> child_text (text_unit ''k'' (Some ''src'') (Some ''second'')) ''target'' = Some ''second''
   \<and> all_units doc_same_key =
        [text_unit ''k'' (Some ''src'') (Some ''first''), text_unit ''k'' (Some ''src'') (Some ''second'')]
   \<and> singular_step True ''fr'' (text_unit ''k'' (Some ''src'') (Some ''second''))
        [(''k'', StringEntry ''first'')] = ([(''k'', StringEntry ''first'')], [])
   \<and> parse_root ''fr.xliff'' True doc_same_key =
        (Inr \<lparr>r_translations = [(''k'', StringEntry ''first'')], r_target_language = ''fr''\<rparr>, [])"
  by code_simp

section \<open>One document\<close>

lemma parse_root_fst:
  "fst (parse_root file_path w root) =
     (case find_elem root ''file'' of
        None \<Rightarrow> Inl (InvalidStructure file_path)
      | Some file_elem \<Rightarrow>
         (case get file_elem ''target-language'' of
            None \<Rightarrow> Inl (MissingTargetLanguage file_path)
          | Some lang \<Rightarrow>
              if doc_fails root then Inl AttributeError
              else Inr \<lparr>r_translations =
                          fst (singular_loop w lang (all_units root)
                                 (foldl add_group [] (plural_groups root))),
                        r_target_language = lang\<rparr>))"
proof (cases "find_elem root ''file''")
  case None
  then show ?thesis by (simp add: parse_root_def)
next
  case (Some file_elem)
  show ?thesis
  proof (cases "get file_elem ''target-language''")
    case None
    with Some show ?thesis by (simp add: parse_root_def)
  next
    case (Some lang)
    have g: "fst (plural_groups_loop w lang (plural_groups root) []) =
        (if doc_fails root then Inl AttributeError
         else Inr (foldl add_group [] (plural_groups root)))"
      by (simp add: plural_groups_loop_fst doc_fails_def)
    show ?thesis
    proof (cases "plural_groups_loop w lang (plural_groups root) []")
      case (Pair r out)
      with g \<open>find_elem root ''file'' = Some file_elem\<close> Some show ?thesis
        by (cases r)
          (auto simp add: parse_root_def plural_groups_def all_units_def
             split: prod.splits if_splits)
    qed
  qed
qed

section \<open>Keys claimed by plural groups\<close>

text \<open>
  C2. When the loop over the plural groups has stored a plural entry under a key, the
  parsed document has that same entry under the key: the loop over the units does not
  replace it by a string entry, and no key occurs twice in the translations.
\<close>

theorem plural_entry_kept:
  assumes "find_elem root ''file'' = Some file_elem"
    and "get file_elem ''target-language'' = Some lang"
    and "plural_groups_loop w lang (plural_groups root) [] = (Inr tr, out)"
    and "map_of tr k = Some (PluralEntry forms)"
  shows "\<exists>r. fst (parse_root file_path w root) = Inr r \<and>
           map_of (r_translations r) k = Some (PluralEntry forms) \<and>
           distinct (map fst (r_translations r)) \<and>
           (\<forall>v. (k, StringEntry v) \<notin> set (r_translations r))"
proof -
  from assms(3) have f: "\<not> doc_fails root" and tr: "tr = foldl add_group [] (plural_groups root)"
    using plural_groups_loop_fst [of w lang "plural_groups root" "[]"]
    by (auto simp add: doc_fails_def split: if_splits)
  let ?tr' = "fst (singular_loop w lang (all_units root) tr)"
  have r: "fst (parse_root file_path w root) =
      Inr \<lparr>r_translations = ?tr', r_target_language = lang\<rparr>"
    using assms(1,2) f tr by (simp add: parse_root_fst)
  have m: "map_of ?tr' k = Some (PluralEntry forms)"
    using assms(4) by (simp add: singular_loop_map)
  have d: "distinct (map fst ?tr')"
    unfolding tr by (rule singular_loop_distinct) (simp add: foldl_add_group_distinct)
  have "(k, StringEntry v) \<notin> set ?tr'" for v
  proof
    assume "(k, StringEntry v) \<in> set ?tr'"
    with d have "map_of ?tr' k = Some (StringEntry v)" by simp
    with m show False by simp
  qed
  with r m d show ?thesis by simp
qed

theorem plural_entry_kept_witness:
  "\<exists>r. fst (parse_root ''fr.xliff'' True doc_cart) = Inr r \<and>
       map_of (r_translations r) ''cart.count'' =
         Some (PluralEntry [(''one'', ''1 article''), (''other'', ''%d items'')]) \<and>
       distinct (map fst (r_translations r)) \<and>
       (\<forall>v. (''cart.count'', StringEntry v) \<notin> set (r_translations r))"
proof -
  have "find_elem doc_cart ''file'' =
      Some (el ''file'' [(''source-language'', ''en''), (''target-language'', ''fr'')] None
              [el ''body'' [] None [cart_group, greeting_unit,
                 text_unit ''cart.count'' None (Some ''panier'')]])"
    and "get (el ''file'' [(''source-language'', ''en''), (''target-language'', ''fr'')] None
              [el ''body'' [] None [cart_group, greeting_unit,
                 text_unit ''cart.count'' None (Some ''panier'')]]) ''target-language'' = Some ''fr''"
    and "plural_groups_loop True ''fr'' (plural_groups doc_cart) [] =
      (Inr [(''cart.count'', PluralEntry [(''one'', ''1 article''), (''other'', ''%d items'')])],
       [PluralWarning ''other'' (Some ''cart.count'') ''fr''])"
    and "map_of [(''cart.count'', PluralEntry [(''one'', ''1 article''), (''other'', ''%d items'')])]
       ''cart.count'' = Some (PluralEntry [(''one'', ''1 article''), (''other'', ''%d items'')])"
    by code_simp+
  then show ?thesis by (rule plural_entry_kept)
qed


section \<open>Units and groups that share a key\<close>

text \<open>
  C9 (as amended). The loop over the units never changes an entry that is already in the
  translations; for a key that is not, the entry is the text of the first unit, in
  document order, that has this key and yields a text, and there is no entry when no
  unit does. Among the plural groups, the last one that contributes a key determines
  the entry of that key after the loop over the groups.
\<close>

theorem first_unit_with_text_wins:
  "(singular_loop w lang us tr = (tr', out) \<longrightarrow>
      (\<forall>k e. map_of tr k = Some e \<longrightarrow> map_of tr' k = Some e) \<and>
      (\<forall>k. map_of tr k = None \<longrightarrow>
         map_of tr' k =
           (case List.find (\<lambda>u. unit_key u = Some k \<and> unit_text u \<noteq> None) us of
              None \<Rightarrow> None
            | Some u \<Rightarrow> map_option StringEntry (unit_text u))))
   \<and>
   (plural_groups_loop w lang (gs @ g # gs') tr0 = (Inr tr1, out1) \<and>
    group_emits g = Some (key, forms) \<and>
    (\<forall>g' \<in> set gs'. \<forall>f. group_emits g' \<noteq> Some (key, f)) \<longrightarrow>
      map_of tr1 key = Some (PluralEntry forms))"
proof (intro conjI impI allI)
  fix k e
  assume "singular_loop w lang us tr = (tr', out)" and "map_of tr k = Some e"
  then show "map_of tr' k = Some e"
    using singular_loop_map [of w lang us tr k] by simp
next
  fix k
  assume "singular_loop w lang us tr = (tr', out)" and "map_of tr k = None"
  then show "map_of tr' k =
      (case List.find (\<lambda>u. unit_key u = Some k \<and> unit_text u \<noteq> None) us of
         None \<Rightarrow> None
       | Some u \<Rightarrow> map_option StringEntry (unit_text u))"
    using singular_loop_map [of w lang us tr k] by simp
next
  assume h: "plural_groups_loop w lang (gs @ g # gs') tr0 = (Inr tr1, out1) \<and>
    group_emits g = Some (key, forms) \<and>
    (\<forall>g' \<in> set gs'. \<forall>f. group_emits g' \<noteq> Some (key, f))"
  then have "tr1 = foldl add_group tr0 (gs @ g # gs')"
    using plural_groups_loop_fst [of w lang "gs @ g # gs'" tr0]
    by (simp split: if_splits)
  with h show "map_of tr1 key = Some (PluralEntry forms)"
    using foldl_add_group_last [of g key forms gs' tr0 gs] by simp
qed

theorem first_unit_with_text_wins_witness:
  "singular_loop True ''fr'' [text_unit ''a'' None None, text_unit ''a'' None (Some ''x'')] [] =
     ([(''a'', StringEntry ''x'')], []) \<and>
   map_of [(''a'', StringEntry ''x'')] ''a'' = Some (StringEntry ''x'') \<and>
   plural_groups_loop True ''fr'' ([cart_group] @ cart_group_late # []) [] =
     (Inr [(''cart.count'', PluralEntry [(''other'', ''articles'')])],
      [PluralWarning ''other'' (Some ''cart.count'') ''fr'']) \<and>
   group_emits cart_group = Some (''cart.count'', [(''one'', ''1 article''), (''other'', ''%d items'')]) \<and>
   group_emits cart_group_late = Some (''cart.count'', [(''other'', ''articles'')]) \<and>
   map_of [(''cart.count'', PluralEntry [(''other'', ''articles'')])] ''cart.count'' =
     Some (PluralEntry [(''other'', ''articles'')])"
proof -
  let ?us = "[text_unit ''a'' None None, text_unit ''a'' None (Some ''x'')]"
  have s: "singular_loop True ''fr'' ?us [] = ([(''a'', StringEntry ''x'')], [])"
    by code_simp
  have n: "map_of ([] :: (string \<times> entry) list) ''a'' = None"
    by simp
  have f: "(case List.find (\<lambda>u. unit_key u = Some ''a'' \<and> unit_text u \<noteq> None) ?us of
              None \<Rightarrow> None
            | Some u \<Rightarrow> map_option StringEntry (unit_text u)) = Some (StringEntry ''x'')"
    by code_simp
  have p: "plural_groups_loop True ''fr'' ([cart_group] @ cart_group_late # []) [] =
      (Inr [(''cart.count'', PluralEntry [(''other'', ''articles'')])],
       [PluralWarning ''other'' (Some ''cart.count'') ''fr'']) \<and>
    group_emits cart_group_late = Some (''cart.count'', [(''other'', ''articles'')])"
    by code_simp
  have q: "\<forall>g' \<in> set []. \<forall>f. group_emits g' \<noteq> Some (''cart.count'', f)"
    by simp
  note T = first_unit_with_text_wins [where w = True and lang = "''fr''" and us = ?us
      and tr = "[]" and tr' = "[(''a'', StringEntry ''x'')]" and out = "[]"
      and gs = "[cart_group]" and g = cart_group_late and gs' = "[]" and ?tr0.0 = "[]"
      and ?tr1.0 = "[(''cart.count'', PluralEntry [(''other'', ''articles'')])]"
      and ?out1.0 = "[PluralWarning ''other'' (Some ''cart.count'') ''fr'']"
      and key = "''cart.count''" and forms = "[(''other'', ''articles'')]"]
  from T s n have "map_of [(''a'', StringEntry ''x'')] ''a'' =
      (case List.find (\<lambda>u. unit_key u = Some ''a'' \<and> unit_text u \<noteq> None) ?us of
         None \<Rightarrow> None
       | Some u \<Rightarrow> map_option StringEntry (unit_text u))"
    by blast
  then have 1: "map_of [(''a'', StringEntry ''x'')] ''a'' = Some (StringEntry ''x'')"
    by (simp only: f)
  from T p q have 2: "map_of [(''cart.count'', PluralEntry [(''other'', ''articles'')])]
      ''cart.count'' = Some (PluralEntry [(''other'', ''articles'')])"
    by blast
  have e: "group_emits cart_group =
      Some (''cart.count'', [(''one'', ''1 article''), (''other'', ''%d items'')])"
    by code_simp
  from s 1 p e 2 show ?thesis by blast
qed

text \<open>
  C9 as stated fails when the earlier of two units with the same key yields no text:
  the earlier unit of \<open>doc_empty_then_text\<close> stores nothing and the later unit, which
  the claim says is skipped, produces the entry.
\<close>

theorem later_unit_produces_entry:
  "all_units doc_empty_then_text = [text_unit ''a'' None None, text_unit ''a'' None (Some ''x'')]
   \<and> unit_key (text_unit ''a'' None None) = Some ''a''
   \<and> unit_key (text_unit ''a'' None (Some ''x'')) = Some ''a''
   \<and> singular_step True ''fr'' (text_unit ''a'' None None) [] = ([], [])
   \<and> singular_step True ''fr'' (text_unit ''a'' None (Some ''x'')) [] =
        ([(''a'', StringEntry ''x'')], [])
   \<and> parse_root ''fr.xliff'' True doc_empty_then_text =
        (Inr \<lparr>r_translations = [(''a'', StringEntry ''x'')], r_target_language = ''fr''\<rparr>, [])"
  by code_simp


section \<open>Plural groups that contribute nothing\<close>

text \<open>
  C5 (as amended). A plural group whose loop over the units ends with no form, or with no
  key or an empty key, leaves the translations as they are, and a group with no form
  prints nothing. In a parsed document, a plural entry under a key comes from a plural
  group that ended with that non-empty key and these forms, at least one. (The units of
  such a group are still visited by the loop over all units.)
\<close>

theorem group_without_forms_dropped:
  "(plural_units_loop w lang (findall g ''trans-unit'') ([], None) = (Inr (forms, key), out) \<and>
    (forms = [] \<or> key = None \<or> key = Some []) \<longrightarrow>
      plural_group_step w lang g tr = (Inr tr, out) \<and> (forms = [] \<longrightarrow> out = []))
   \<and>
   (fst (parse_root file_path w root) = Inr r \<and>
    map_of (r_translations r) k = Some (PluralEntry f) \<longrightarrow>
      (\<exists>g' \<in> set (plural_groups root). group_emits g' = Some (k, f)) \<and> k \<noteq> [] \<and> f \<noteq> [])"
proof -
  have A: "plural_group_step w lang g tr = (Inr tr, out) \<and> (forms = [] \<longrightarrow> out = [])"
    if h: "plural_units_loop w lang (findall g ''trans-unit'') ([], None) =
      (Inr (forms, key), out) \<and> (forms = [] \<or> key = None \<or> key = Some [])"
  proof
    from h show "plural_group_step w lang g tr = (Inr tr, out)"
      by (auto simp add: plural_group_step_def split: option.splits)
    from h plural_units_loop_quiet [of w lang "findall g ''trans-unit''" "[]" None forms key out]
    show "forms = [] \<longrightarrow> out = []"
      by auto
  qed
  have B: "(\<exists>g' \<in> set (plural_groups root). group_emits g' = Some (k, f)) \<and> k \<noteq> [] \<and> f \<noteq> []"
    if h: "fst (parse_root file_path w root) = Inr r \<and>
      map_of (r_translations r) k = Some (PluralEntry f)"
  proof -
    from h obtain lang where
      r: "r_translations r =
            fst (singular_loop w lang (all_units root) (foldl add_group [] (plural_groups root)))"
      by (auto simp add: parse_root_fst split: option.splits if_splits)
    let ?tr = "foldl add_group [] (plural_groups root)"
    have "map_of ?tr k = Some (PluralEntry f)"
    proof (cases "map_of ?tr k")
      case None
      with h r show ?thesis
        by (simp add: singular_loop_map split: option.splits)
    next
      case (Some e)
      with h r show ?thesis
        by (simp add: singular_loop_map)
    qed
    from foldl_add_group_origin [OF this]
    obtain g' where g': "g' \<in> set (plural_groups root)" "group_emits g' = Some (k, f)"
      by auto
    with group_emits_nonempty [OF g'(2)] show ?thesis
      by blast
  qed
  from A B show ?thesis by blast
qed

theorem group_without_forms_dropped_witness:
  "plural_units_loop True ''fr'' (findall group_no_marker ''trans-unit'') ([], None) =
     (Inr ([], Some ''k''), []) \<and>
   plural_group_step True ''fr'' group_no_marker [(''z'', StringEntry ''y'')] =
     (Inr [(''z'', StringEntry ''y'')], []) \<and>
   (\<exists>g' \<in> set (plural_groups doc_cart).
      group_emits g' = Some (''cart.count'', [(''one'', ''1 article''), (''other'', ''%d items'')]))"
proof -
  have u: "plural_units_loop True ''fr'' (findall group_no_marker ''trans-unit'') ([], None) =
      (Inr ([], Some ''k''), []) \<and> ([] = ([] :: (string \<times> string) list) \<or> Some ''k'' = None \<or> Some ''k'' = Some [])"
    by code_simp
  let ?r = "\<lparr>r_translations =
      [(''cart.count'', PluralEntry [(''one'', ''1 article''), (''other'', ''%d items'')]),
       (''greeting'', StringEntry ''Hello'')], r_target_language = ''fr''\<rparr>"
  have p: "fst (parse_root ''fr.xliff'' True doc_cart) = Inr ?r \<and>
      map_of (r_translations ?r) ''cart.count'' =
        Some (PluralEntry [(''one'', ''1 article''), (''other'', ''%d items'')])"
    by code_simp
  note T = group_without_forms_dropped [where w = True and lang = "''fr''"
      and g = group_no_marker and forms = "[]" and key = "Some ''k''" and out = "[]"
      and tr = "[(''z'', StringEntry ''y'')]" and file_path = "''fr.xliff''"
      and root = doc_cart and r = ?r and k = "''cart.count''"
      and f = "[(''one'', ''1 article''), (''other'', ''%d items'')]"]
  from T u have 1: "plural_group_step True ''fr'' group_no_marker [(''z'', StringEntry ''y'')] =
      (Inr [(''z'', StringEntry ''y'')], [])"
    by blast
  from T p have 2: "\<exists>g' \<in> set (plural_groups doc_cart).
      group_emits g' = Some (''cart.count'', [(''one'', ''1 article''), (''other'', ''%d items'')])"
    by blast
  from u 1 2 show ?thesis by blast
qed

text \<open>
  C5 as stated fails: the group of \<open>doc_group_no_marker\<close> ends with the key \<open>k\<close> and no
  form, and the parsed document has an entry under \<open>k\<close>, made from the group's unit by
  the loop over all units.
\<close>

theorem dropped_group_key_in_output:
  "plural_groups doc_group_no_marker = [group_no_marker]
   \<and> plural_units_loop True ''fr'' (findall group_no_marker ''trans-unit'') ([], None) =
        (Inr ([], Some ''k''), [])
   \<and> plural_groups_loop True ''fr'' (plural_groups doc_group_no_marker) [] = (Inr [], [])
   \<and> parse_root ''fr.xliff'' True doc_group_no_marker =
        (Inr \<lparr>r_translations = [(''k'', StringEntry ''x'')], r_target_language = ''fr''\<rparr>, [])"
  by code_simp

section \<open>Markers in the tree\<close>

lemma iter_self: "e \<in> set (iter e)"
  by (cases e) simp

lemma iter_trans: "x \<in> set (iter e) \<Longrightarrow> set (iter x) \<subseteq> set (iter e)"
proof (induction e rule: iter.induct)
  case (1 t a y cs)
  from "1.prems" consider "x = Element t a y cs" | c where "c \<in> set cs" "x \<in> set (iter c)"
    by auto
  then show ?case
  proof cases
    case 1
    then show ?thesis by simp
  next
    case 2
    with "1.IH" have "set (iter x) \<subseteq> set (iter c)" by simp
    with 2 show ?thesis by auto
  qed
qed

lemma iter_child: "c \<in> set (children e) \<Longrightarrow> c \<in> set (iter e)"
  using iter_self [of c] by (cases e) auto

lemma descendants_child:
  assumes "x \<in> set (descendants root)" and "c \<in> set (children x)"
  shows "c \<in> set (descendants root)"
proof -
  from assms(1) obtain r where r: "r \<in> set (children root)" "x \<in> set (iter r)"
    by (auto simp add: descendants_def)
  from iter_child [OF assms(2)] iter_trans [OF r(2)] have "c \<in> set (iter r)"
    by auto
  with r(1) show ?thesis by (auto simp add: descendants_def)
qed

lemma find_elem_child: "find_elem e n = Some c \<Longrightarrow> c \<in> set (children e)"
  by (auto simp add: find_elem_def find_Some_iff)

lemma find_attr_child:
  "find_attr e n key v = Some c \<Longrightarrow>
     c \<in> set (children e) \<and> tag c = ns n \<and> get c key = Some v"
  by (auto simp add: find_attr_def find_Some_iff)

lemma markers_no_failure:
  assumes "markers_have_text root"
  shows "\<not> doc_fails root"
proof
  assume "doc_fails root"
  then obtain g u pe where g: "g \<in> set (descendants root)"
    and u: "u \<in> set (children g)"
    and pe: "plural_form_marker u = Some pe" "etext pe = None"
    by (auto simp add: doc_fails_def group_fails_def unit_fails_def list_ex_iff
          plural_groups_def findall_desc_attr_def findall_def split: option.splits)
  from pe(1) obtain cg where cg: "find_elem u ''context-group'' = Some cg"
    and m: "find_attr cg ''context'' ''context-type'' ''x-plural-form'' = Some pe"
    by (rule marker_located)
  from descendants_child [OF g u] have "u \<in> set (descendants root)" .
  from descendants_child [OF this find_elem_child [OF cg]]
  have "cg \<in> set (descendants root)" .
  with find_attr_child [OF m] have "pe \<in> set (descendants root)"
    by (simp add: descendants_child)
  with find_attr_child [OF m] assms have "etext pe \<noteq> None"
    by (auto simp add: markers_have_text_def)
  with pe(2) show False by simp
qed

lemma doc_fails_located:
  assumes "g \<in> set (plural_groups root)" and "u \<in> set (findall g ''trans-unit'')"
    and "plural_form_marker u = Some pe" and "etext pe = None"
  shows "doc_fails root"
proof -
  from assms(3,4) have "unit_fails u" by (simp add: unit_fails_def)
  with assms(2) have "group_fails g" by (auto simp add: group_fails_def list_ex_iff)
  with assms(1) show ?thesis by (auto simp add: doc_fails_def list_ex_iff)
qed

section \<open>What one document prints\<close>

lemma progress_of_append: "progress_of (a @ b) = progress_of a @ progress_of b"
  by (induction a rule: progress_of.induct) simp_all

lemma plural_unit_step_progress: "progress_of (snd (plural_unit_step w lang u st)) = []"
proof (cases st)
  case (Pair pf rn)
  show ?thesis
  proof (cases "plural_form_marker u")
    case None
    with Pair show ?thesis by (simp add: plural_unit_step_no_marker)
  next
    case (Some pe)
    with Pair show ?thesis
      by (cases "etext pe") (simp_all add: plural_unit_step_no_text plural_unit_step_text)
  qed
qed

lemma plural_units_loop_progress: "progress_of (snd (plural_units_loop w lang us st)) = []"
proof (induction us arbitrary: st)
  case Nil
  show ?case by simp
next
  case (Cons u us)
  show ?case
  proof (cases "plural_unit_step w lang u st")
    case (Pair r out)
    with plural_unit_step_progress [of w lang u st] have o: "progress_of out = []"
      by simp
    show ?thesis
    proof (cases r)
      case (Inl e)
      with Pair o show ?thesis by simp
    next
      case (Inr st')
      with Pair o Cons.IH [of st'] show ?thesis
        by (auto simp add: progress_of_append split: prod.splits)
    qed
  qed
qed

lemma plural_groups_loop_progress: "progress_of (snd (plural_groups_loop w lang gs tr)) = []"
proof (induction gs arbitrary: tr)
  case Nil
  show ?case by simp
next
  case (Cons g gs)
  show ?case
  proof (cases "plural_group_step w lang g tr")
    case (Pair r out)
    with plural_group_step_snd [of w lang g tr] plural_units_loop_progress
    have o: "progress_of out = []"
      by simp
    show ?thesis
    proof (cases r)
      case (Inl e)
      with Pair o show ?thesis by simp
    next
      case (Inr tr')
      with Pair o Cons.IH [of tr'] show ?thesis
        by (auto simp add: progress_of_append split: prod.splits)
    qed
  qed
qed

lemma singular_step_progress: "progress_of (snd (singular_step w lang u tr)) = []"
  by (simp add: singular_step_def Let_def split: option.splits)

lemma singular_loop_progress: "progress_of (snd (singular_loop w lang us tr)) = []"
proof (induction us arbitrary: tr)
  case Nil
  show ?case by simp
next
  case (Cons u us)
  show ?case
  proof (cases "singular_step w lang u tr")
    case (Pair tr' out)
    with singular_step_progress [of w lang u tr] Cons.IH [of tr'] show ?thesis
      by (auto simp add: progress_of_append split: prod.splits)
  qed
qed

lemma parse_root_progress: "progress_of (snd (parse_root file_path w root)) = []"
proof -
  have "progress_of (snd (case plural_groups_loop w lang gs [] of
          (Inl e, out) \<Rightarrow> (Inl e, out)
        | (Inr tr, out) \<Rightarrow>
           (case singular_loop w lang us tr of
              (tr', out') \<Rightarrow>
                (Inr \<lparr>r_translations = tr', r_target_language = lang\<rparr>, out @ out')))) = []"
    for lang gs us
  proof (cases "plural_groups_loop w lang gs []")
    case (Pair r out)
    with plural_groups_loop_progress [of w lang gs "[]"] have o: "progress_of out = []"
      by simp
    show ?thesis
    proof (cases r)
      case (Inl e)
      with Pair o show ?thesis by simp
    next
      case (Inr tr)
      with Pair o singular_loop_progress [of w lang us tr] show ?thesis
        by (auto simp add: progress_of_append split: prod.splits)
    qed
  qed
  then show ?thesis
    by (simp add: parse_root_def split: option.splits)
qed

lemma parse_xliff_file_progress: "progress_of (snd (parse_xliff_file fs file_path w)) = []"
  by (simp add: parse_xliff_file_def parse_root_progress split: sum.splits)

lemma parse_xliff_file_XML:
  "fs file_path = Some (XML root) \<Longrightarrow> parse_xliff_file fs file_path w = parse_root file_path w root"
  by (simp add: parse_xliff_file_def ET_parse_def)


section \<open>Structure and metadata errors\<close>

text \<open>
  C6 (as amended). For a file that holds the tree \<open>root\<close>: parsing raises the structure
  error exactly when the root has no \<open>file\<close> child, and the missing-metadata error
  exactly when that child has no \<open>target-language\<close> attribute; whenever parsing returns
  a result, its target language is the value of that attribute; and parsing does return
  one when both are present and no marker located in a plural group lacks its text.
\<close>

theorem structure_and_metadata_errors:
  assumes "fs file_path = Some (XML root)"
  shows "(fst (parse_xliff_file fs file_path w) = Inl (InvalidStructure file_path) \<longleftrightarrow>
            find_elem root ''file'' = None)
     \<and> (fst (parse_xliff_file fs file_path w) = Inl (MissingTargetLanguage file_path) \<longleftrightarrow>
            (\<exists>fe. find_elem root ''file'' = Some fe \<and> get fe ''target-language'' = None))
     \<and> (\<forall>r. fst (parse_xliff_file fs file_path w) = Inr r \<longrightarrow>
            (\<exists>fe. find_elem root ''file'' = Some fe \<and>
                  get fe ''target-language'' = Some (r_target_language r)))
     \<and> (\<forall>fe lang. find_elem root ''file'' = Some fe \<and> get fe ''target-language'' = Some lang \<and>
            \<not> doc_fails root \<longrightarrow>
            (\<exists>r. fst (parse_xliff_file fs file_path w) = Inr r \<and> r_target_language r = lang))"
proof -
  note p = parse_xliff_file_XML [of fs file_path root, OF assms] parse_root_fst
  have 1: "fst (parse_xliff_file fs file_path w) = Inl (InvalidStructure file_path) \<longleftrightarrow>
      find_elem root ''file'' = None"
    by (simp add: p split: option.splits)
  have 2: "fst (parse_xliff_file fs file_path w) = Inl (MissingTargetLanguage file_path) \<longleftrightarrow>
      (\<exists>fe. find_elem root ''file'' = Some fe \<and> get fe ''target-language'' = None)"
    by (simp add: p split: option.splits)
  have 3: "\<exists>fe. find_elem root ''file'' = Some fe \<and>
      get fe ''target-language'' = Some (r_target_language r)"
    if "fst (parse_xliff_file fs file_path w) = Inr r" for r
    using that by (auto simp add: p split: option.splits if_splits)
  have 4: "\<exists>r. fst (parse_xliff_file fs file_path w) = Inr r \<and> r_target_language r = lang"
    if "find_elem root ''file'' = Some fe \<and> get fe ''target-language'' = Some lang \<and>
      \<not> doc_fails root" for fe lang
    using that by (simp add: p)
  from 1 2 3 4 show ?thesis by blast
qed

theorem structure_and_metadata_errors_witness:
  "fst (parse_xliff_file [''raw/fr.xliff'' \<mapsto> XML doc_cart] ''raw/fr.xliff'' True) \<noteq>
     Inl (InvalidStructure ''raw/fr.xliff'')
   \<and> fst (parse_xliff_file [''raw/fr.xliff'' \<mapsto> XML doc_cart] ''raw/fr.xliff'' True) \<noteq>
     Inl (MissingTargetLanguage ''raw/fr.xliff'')
   \<and> (\<exists>r. fst (parse_xliff_file [''raw/fr.xliff'' \<mapsto> XML doc_cart] ''raw/fr.xliff'' True) = Inr r \<and>
          r_target_language r = ''fr'')"
proof -
  let ?fe = "el ''file'' [(''source-language'', ''en''), (''target-language'', ''fr'')] None
      [el ''body'' [] None [cart_group, greeting_unit,
         text_unit ''cart.count'' None (Some ''panier'')]]"
  have f: "[''raw/fr.xliff'' \<mapsto> XML doc_cart] ''raw/fr.xliff'' = Some (XML doc_cart)"
    by simp
  have a: "find_elem doc_cart ''file'' = Some ?fe" and b: "get ?fe ''target-language'' = Some ''fr''"
    and c: "\<not> doc_fails doc_cart"
    by code_simp+
  note T = structure_and_metadata_errors [where fs = "[''raw/fr.xliff'' \<mapsto> XML doc_cart]"
      and file_path = "''raw/fr.xliff''" and root = doc_cart and w = True, OF f]
  from T a have 1: "fst (parse_xliff_file [''raw/fr.xliff'' \<mapsto> XML doc_cart] ''raw/fr.xliff'' True) \<noteq>
     Inl (InvalidStructure ''raw/fr.xliff'')"
    by simp
  from T a b have 2: "fst (parse_xliff_file [''raw/fr.xliff'' \<mapsto> XML doc_cart] ''raw/fr.xliff'' True) \<noteq>
     Inl (MissingTargetLanguage ''raw/fr.xliff'')"
    by simp
  from T a b c have 3: "\<exists>r. fst (parse_xliff_file [''raw/fr.xliff'' \<mapsto> XML doc_cart] ''raw/fr.xliff'' True) = Inr r \<and>
          r_target_language r = ''fr''"
    by blast
  from 1 2 3 show ?thesis by blast
qed

text \<open>
  C6 as stated fails: \<open>doc_empty_marker\<close> has the \<open>file\<close> child and the attribute, and
  parsing it returns no document.
\<close>

theorem parse_raises_with_container_and_attribute:
  "find_elem doc_empty_marker ''file'' =
     Some (el ''file'' [(''source-language'', ''en''), (''target-language'', ''fr'')] None
             [el ''body'' [] None
                [plural_group [plural_unit ''k'' None (Some ''src'') (Some ''t'')]]])
   \<and> get (el ''file'' [(''source-language'', ''en''), (''target-language'', ''fr'')] None
             [el ''body'' [] None
                [plural_group [plural_unit ''k'' None (Some ''src'') (Some ''t'')]]])
         ''target-language'' = Some ''fr''
   \<and> parse_xliff_file [''raw/fr.xliff'' \<mapsto> XML doc_empty_marker] ''raw/fr.xliff'' True =
        (Inl AttributeError, [])"
  by code_simp

section \<open>The loop over the languages\<close>

lemma locales_loop_missing:
  "fs (input_file dir l) = None \<Longrightarrow>
     locales_loop fs dir (l # rest) (pl, aw) = (Inl (FileNotFoundError (input_file dir l)), [])"
  by (simp add: Let_def)

lemma locales_loop_raises:
  assumes "fs (input_file dir l) \<noteq> None"
    and "fst (parse_xliff_file fs (input_file dir l) True) = Inl e"
  shows "locales_loop fs dir (l # rest) (pl, aw) =
     (Inl (LocaleError (locale_code l) e),
      Parsing (locale_code l) # snd (parse_xliff_file fs (input_file dir l) True))"
  using assms by (cases "parse_xliff_file fs (input_file dir l) True") (auto simp add: Let_def)

lemma locales_loop_ok:
  assumes "locale_ok fs dir l"
  shows "\<exists>res out. parse_xliff_file fs (input_file dir l) True = (Inr res, out) \<and>
     progress_of out = [] \<and>
     (\<forall>rest pl aw. locales_loop fs dir (l # rest) (pl, aw) =
       (case locales_loop fs dir rest
               (AList.update (locale_code l)
                  \<lparr>l_target_language = r_target_language res,
                   l_translations = r_translations res,
                   language_info = l\<rparr> pl, aw) of
          (r, out') \<Rightarrow> (r, Parsing (locale_code l) # out @ out')))"
proof (cases "parse_xliff_file fs (input_file dir l) True")
  case (Pair r out)
  with assms obtain res where r: "r = Inr res"
    by (cases r) (auto simp add: locale_ok_def)
  from Pair parse_xliff_file_progress [of fs "input_file dir l" True]
  have "progress_of out = []" by simp
  with Pair r assms show ?thesis
    by (auto simp add: Let_def validate_translations_def locale_ok_def)
qed

lemma locales_loop_prefix:
  assumes "\<forall>p \<in> set pre. locale_ok fs dir p"
  shows "\<exists>pl' out1.
     (\<forall>rest. locales_loop fs dir (pre @ rest) (pl, aw) =
        (case locales_loop fs dir rest (pl', aw) of (r, out') \<Rightarrow> (r, out1 @ out'))) \<and>
     progress_of out1 = map locale_code pre \<and>
     fst ` set pl' = fst ` set pl \<union> locale_code ` set pre \<and>
     (distinct (map fst pl) \<longrightarrow> distinct (map fst pl'))"
  using assms
proof (induction pre arbitrary: pl)
  case Nil
  have "\<forall>rest. locales_loop fs dir ([] @ rest) (pl, aw) =
        (case locales_loop fs dir rest (pl, aw) of (r, out') \<Rightarrow> (r, [] @ out'))"
    by simp
  then show ?case by fastforce
next
  case (Cons l pre)
  then have ok: "locale_ok fs dir l" and pre: "\<forall>p \<in> set pre. locale_ok fs dir p"
    by simp_all
  from locales_loop_ok [OF ok] obtain res out where
    all: "parse_xliff_file fs (input_file dir l) True = (Inr res, out) \<and>
     progress_of out = [] \<and>
     (\<forall>rest pl aw. locales_loop fs dir (l # rest) (pl, aw) =
       (case locales_loop fs dir rest
               (AList.update (locale_code l)
                  \<lparr>l_target_language = r_target_language res,
                   l_translations = r_translations res,
                   language_info = l\<rparr> pl, aw) of
          (r, out') \<Rightarrow> (r, Parsing (locale_code l) # out @ out')))"
    by (elim exE)
  then have out: "progress_of out = []" and
    step: "\<And>rest pl aw. locales_loop fs dir (l # rest) (pl, aw) =
       (case locales_loop fs dir rest
               (AList.update (locale_code l)
                  \<lparr>l_target_language = r_target_language res,
                   l_translations = r_translations res,
                   language_info = l\<rparr> pl, aw) of
          (r, out') \<Rightarrow> (r, Parsing (locale_code l) # out @ out'))"
    by simp_all
  let ?pl1 = "AList.update (locale_code l)
                  \<lparr>l_target_language = r_target_language res,
                   l_translations = r_translations res,
                   language_info = l\<rparr> pl"
  from Cons.IH [OF pre, of ?pl1] obtain pl' out1 where
    loop: "\<And>rest. locales_loop fs dir (pre @ rest) (?pl1, aw) =
        (case locales_loop fs dir rest (pl', aw) of (r, out') \<Rightarrow> (r, out1 @ out'))"
    and prog: "progress_of out1 = map locale_code pre"
    and keys: "fst ` set pl' = fst ` set ?pl1 \<union> locale_code ` set pre"
    and dist: "distinct (map fst ?pl1) \<longrightarrow> distinct (map fst pl')"
    by blast
  have "\<forall>rest. locales_loop fs dir ((l # pre) @ rest) (pl, aw) =
        (case locales_loop fs dir rest (pl', aw) of
           (r, out') \<Rightarrow> (r, (Parsing (locale_code l) # out @ out1) @ out'))"
    using step loop by (simp split: prod.splits)
  moreover have "progress_of (Parsing (locale_code l) # out @ out1) = map locale_code (l # pre)"
    using out prog by (simp add: progress_of_append)
  moreover have "fst ` set pl' = fst ` set pl \<union> locale_code ` set (l # pre)"
    using keys by (auto simp add: AList.dom_update)
  moreover have "distinct (map fst pl) \<longrightarrow> distinct (map fst pl')"
    using dist by (simp add: AList.distinct_update)
  ultimately show ?case by blast
qed


lemma locales_loop_first_missing:
  assumes "\<forall>p \<in> set pre. locale_ok fs dir p" and "fs (input_file dir l) = None"
  shows "\<exists>out. locales_loop fs dir (pre @ l # post) (pl, aw) =
           (Inl (FileNotFoundError (input_file dir l)), out) \<and>
         progress_of out = map locale_code pre"
proof -
  from locales_loop_prefix [OF assms(1), of pl aw] obtain pl' out1 where
    all: "(\<forall>rest. locales_loop fs dir (pre @ rest) (pl, aw) =
        (case locales_loop fs dir rest (pl', aw) of (r, out') \<Rightarrow> (r, out1 @ out'))) \<and>
     progress_of out1 = map locale_code pre \<and>
     fst ` set pl' = fst ` set pl \<union> locale_code ` set pre \<and>
     (distinct (map fst pl) \<longrightarrow> distinct (map fst pl'))"
    by (elim exE)
  then have loop: "\<And>rest. locales_loop fs dir (pre @ rest) (pl, aw) =
        (case locales_loop fs dir rest (pl', aw) of (r, out') \<Rightarrow> (r, out1 @ out'))"
    and prog: "progress_of out1 = map locale_code pre"
    by simp_all
  have "locales_loop fs dir (l # post) (pl', aw) =
      (Inl (FileNotFoundError (input_file dir l)), [])"
    using assms(2) by (rule locales_loop_missing)
  then have "locales_loop fs dir (pre @ l # post) (pl, aw) =
      (Inl (FileNotFoundError (input_file dir l)), out1)"
    by (simp only: loop prod.case append_Nil2)
  with prog show ?thesis by blast
qed

lemma locales_loop_first_raise:
  assumes "\<forall>p \<in> set pre. locale_ok fs dir p" and "fs (input_file dir l) \<noteq> None"
    and "fst (parse_xliff_file fs (input_file dir l) True) = Inl e"
  shows "\<exists>out. locales_loop fs dir (pre @ l # post) (pl, aw) =
           (Inl (LocaleError (locale_code l) e), out) \<and>
         progress_of out = map locale_code pre @ [locale_code l]"
proof -
  from locales_loop_prefix [OF assms(1), of pl aw] obtain pl' out1 where
    all: "(\<forall>rest. locales_loop fs dir (pre @ rest) (pl, aw) =
        (case locales_loop fs dir rest (pl', aw) of (r, out') \<Rightarrow> (r, out1 @ out'))) \<and>
     progress_of out1 = map locale_code pre \<and>
     fst ` set pl' = fst ` set pl \<union> locale_code ` set pre \<and>
     (distinct (map fst pl) \<longrightarrow> distinct (map fst pl'))"
    by (elim exE)
  then have loop: "\<And>rest. locales_loop fs dir (pre @ rest) (pl, aw) =
        (case locales_loop fs dir rest (pl', aw) of (r, out') \<Rightarrow> (r, out1 @ out'))"
    and prog: "progress_of out1 = map locale_code pre"
    by simp_all
  let ?out2 = "Parsing (locale_code l) # snd (parse_xliff_file fs (input_file dir l) True)"
  have "locales_loop fs dir (l # post) (pl', aw) = (Inl (LocaleError (locale_code l) e), ?out2)"
    using assms(2,3) by (rule locales_loop_raises)
  then have "locales_loop fs dir (pre @ l # post) (pl, aw) =
      (Inl (LocaleError (locale_code l) e), out1 @ ?out2)"
    by (simp only: loop prod.case)
  moreover have "progress_of (out1 @ ?out2) = map locale_code pre @ [locale_code l]"
    by (simp add: progress_of_append prog parse_xliff_file_progress)
  ultimately show ?thesis by blast
qed

lemma locales_loop_all_ok:
  assumes "\<forall>p \<in> set langs. locale_ok fs dir p"
  shows "\<exists>pl out. locales_loop fs dir langs ([], []) = (Inr (pl, []), out) \<and>
     progress_of out = map locale_code langs \<and>
     fst ` set pl = locale_code ` set langs \<and> distinct (map fst pl)"
proof -
  from locales_loop_prefix [OF assms, of "[]" "[]"] obtain pl' out1 where
    all: "(\<forall>rest. locales_loop fs dir (langs @ rest) ([], []) =
        (case locales_loop fs dir rest (pl', []) of (r, out') \<Rightarrow> (r, out1 @ out'))) \<and>
     progress_of out1 = map locale_code langs \<and>
     fst ` set pl' = fst ` set ([] :: (string \<times> locale_entry) list) \<union> locale_code ` set langs \<and>
     (distinct (map fst ([] :: (string \<times> locale_entry) list)) \<longrightarrow> distinct (map fst pl'))"
    by (elim exE)
  then have loop: "\<And>rest. locales_loop fs dir (langs @ rest) ([], []) =
        (case locales_loop fs dir rest (pl', []) of (r, out') \<Rightarrow> (r, out1 @ out'))"
    and prog: "progress_of out1 = map locale_code langs"
    and keys: "fst ` set pl' = locale_code ` set langs"
    and dist: "distinct (map fst pl')"
    by simp_all
  from loop [of "[]"] have "locales_loop fs dir langs ([], []) = (Inr (pl', []), out1)"
    by simp
  with prog keys dist show ?thesis by blast
qed

section \<open>Aggregation\<close>

text \<open>
  C3 (as amended). When the file of every configured language exists and is parsed
  without an exception, the aggregation returns a result whose locale map has as its
  keys exactly the configured locale identifiers, each once; it has as many keys as
  there are distinct identifiers, hence as many as configured languages when the
  identifiers are pairwise distinct.
\<close>

theorem one_entry_per_locale:
  assumes "source_language cfg # target_languages cfg = langs"
    and "\<forall>l \<in> set langs. locale_ok fs dir l"
  shows "\<exists>r out. parse_all_xliff_files fs cfg glossary_dict dir = (Inr r, out) \<and>
     fst ` set (locales r) = locale_code ` set langs \<and>
     distinct (map fst (locales r)) \<and>
     length (locales r) = card (locale_code ` set langs) \<and>
     (distinct (map locale_code langs) \<longrightarrow> length (locales r) = length langs)"
proof -
  from locales_loop_all_ok [OF assms(2)] obtain pl out where
    all: "locales_loop fs dir langs ([], []) = (Inr (pl, []), out) \<and>
     progress_of out = map locale_code langs \<and>
     fst ` set pl = locale_code ` set langs \<and> distinct (map fst pl)"
    by (elim exE)
  then have loop: "locales_loop fs dir langs ([], []) = (Inr (pl, []), out)"
    and keys: "fst ` set pl = locale_code ` set langs" and dist: "distinct (map fst pl)"
    by simp_all
  from dist have "length pl = card (set (map fst pl))"
    using distinct_card [of "map fst pl"] by simp
  with keys have len: "length pl = card (locale_code ` set langs)"
    by simp
  have "length pl = length langs" if "distinct (map locale_code langs)"
    using len distinct_card [OF that] by simp
  with loop keys dist len assms(1) show ?thesis
    by (simp add: parse_all_xliff_files_def)
qed

theorem one_entry_per_locale_witness:
  "\<exists>r out. parse_all_xliff_files fs_en_fr setup_en_fr () ''raw'' = (Inr r, out) \<and>
     fst ` set (locales r) = locale_code ` set [lang_en, lang_fr] \<and>
     distinct (map fst (locales r)) \<and>
     length (locales r) = 2"
proof -
  have a: "source_language setup_en_fr # target_languages setup_en_fr = [lang_en, lang_fr]"
    by (simp add: setup_en_fr_def)
  have "locale_ok fs_en_fr ''raw'' lang_en" and "locale_ok fs_en_fr ''raw'' lang_fr"
    by code_simp+
  then have b: "\<forall>l \<in> set [lang_en, lang_fr]. locale_ok fs_en_fr ''raw'' l"
    by simp
  have c: "distinct (map locale_code [lang_en, lang_fr])"
    by code_simp
  from one_entry_per_locale [OF a b, of "()"] c show ?thesis
    by auto
qed

text \<open>
  C3 as stated fails when two configured languages have the same locale identifier:
  with the source language listed again among the targets there are two configured
  languages, both files exist and are parsed, and the locale map has one key.
\<close>

theorem two_languages_one_key:
  "source_language setup_en_en # target_languages setup_en_en = [lang_en, lang_en]
   \<and> locale_ok fs_en ''raw'' lang_en
   \<and> fst (parse_all_xliff_files fs_en setup_en_en () ''raw'') =
       Inr \<lparr>a_source_language = lang_en, a_target_languages = [lang_en],
            a_rtl_languages = (), glossary = (),
            locales = [(''en'', \<lparr>l_target_language = ''en'',
                                l_translations = [(''greeting'', StringEntry ''Hello'')],
                                language_info = lang_en\<rparr>)]\<rparr>"
  by code_simp


text \<open>
  C4. Let the configured languages be \<open>pre @ l # post\<close>, the files of \<open>pre\<close> existing and
  parsed without an exception. If the file of \<open>l\<close> does not exist, the aggregation
  raises the error that names this file, and the progress lines printed are those of
  \<open>pre\<close>: neither \<open>l\<close> nor a language of \<open>post\<close> is processed. If the file exists and
  parsing it raises \<open>e\<close>, the aggregation raises \<open>e\<close> wrapped with the locale of \<open>l\<close>, and
  the progress lines are those of \<open>pre\<close> and \<open>l\<close>. Whenever some configured language has
  no file or a file whose parsing raises, the aggregation returns no result.
\<close>

theorem first_failure_aborts:
  assumes "source_language cfg # target_languages cfg = langs"
  shows "(langs = pre @ l # post \<and> (\<forall>p \<in> set pre. locale_ok fs dir p) \<and>
          fs (input_file dir l) = None \<longrightarrow>
            (\<exists>out. parse_all_xliff_files fs cfg glossary_dict dir =
                     (Inl (FileNotFoundError (input_file dir l)), out) \<and>
                   progress_of out = map locale_code pre))
     \<and> (langs = pre @ l # post \<and> (\<forall>p \<in> set pre. locale_ok fs dir p) \<and>
          fs (input_file dir l) \<noteq> None \<and>
          fst (parse_xliff_file fs (input_file dir l) True) = Inl e \<longrightarrow>
            (\<exists>out. parse_all_xliff_files fs cfg glossary_dict dir =
                     (Inl (LocaleError (locale_code l) e), out) \<and>
                   progress_of out = map locale_code pre @ [locale_code l]))
     \<and> ((\<exists>x \<in> set langs. \<not> locale_ok fs dir x) \<longrightarrow>
            (\<exists>e' out. parse_all_xliff_files fs cfg glossary_dict dir = (Inl e', out)))"
proof -
  have A: "\<exists>out. parse_all_xliff_files fs cfg glossary_dict dir =
                     (Inl (FileNotFoundError (input_file dir l)), out) \<and>
                   progress_of out = map locale_code pre"
    if "langs = pre @ l # post" and "\<forall>p \<in> set pre. locale_ok fs dir p"
      and "fs (input_file dir l) = None" for pre l post
    using locales_loop_first_missing [OF that(2,3), of post "[]" "[]"] assms that(1)
    by (auto simp add: parse_all_xliff_files_def)
  have B: "\<exists>out. parse_all_xliff_files fs cfg glossary_dict dir =
                     (Inl (LocaleError (locale_code l) e), out) \<and>
                   progress_of out = map locale_code pre @ [locale_code l]"
    if "langs = pre @ l # post" and "\<forall>p \<in> set pre. locale_ok fs dir p"
      and "fs (input_file dir l) \<noteq> None"
      and "fst (parse_xliff_file fs (input_file dir l) True) = Inl e" for pre l post e
    using locales_loop_first_raise [OF that(2,3,4), of post "[]" "[]"] assms that(1)
    by (auto simp add: parse_all_xliff_files_def)
  have C: "\<exists>e' out. parse_all_xliff_files fs cfg glossary_dict dir = (Inl e', out)"
    if "\<exists>x \<in> set langs. \<not> locale_ok fs dir x"
  proof -
    from split_list_first_prop [OF that] obtain pre x post where
      s: "langs = pre @ x # post" and x: "\<not> locale_ok fs dir x"
      and pre: "\<forall>p \<in> set pre. \<not> \<not> locale_ok fs dir p"
      by blast
    from pre have ok: "\<forall>p \<in> set pre. locale_ok fs dir p" by simp
    show ?thesis
    proof (cases "fs (input_file dir x) = None")
      case True
      from A [OF s ok True] show ?thesis by blast
    next
      case False
      with x obtain e where "fst (parse_xliff_file fs (input_file dir x) True) = Inl e"
        by (auto simp add: locale_ok_def split: sum.splits)
      from B [OF s ok False this] show ?thesis by blast
    qed
  qed
  from A B C show ?thesis by blast
qed

theorem first_failure_aborts_witness:
  "(\<exists>out. parse_all_xliff_files fs_en setup_en_fr () ''raw'' =
               (Inl (FileNotFoundError ''raw/fr.xliff''), out) \<and>
             progress_of out = [''en''])
   \<and> (\<exists>out. parse_all_xliff_files fs_en_bad_fr setup_en_fr () ''raw'' =
               (Inl (LocaleError ''fr'' AttributeError), out) \<and>
             progress_of out = [''en'', ''fr''])"
proof -
  have a: "source_language setup_en_fr # target_languages setup_en_fr = [lang_en, lang_fr]"
    by (simp add: setup_en_fr_def)
  have s: "[lang_en, lang_fr] = [lang_en] @ lang_fr # []"
    by simp
  have "locale_ok fs_en ''raw'' lang_en" and "locale_ok fs_en_bad_fr ''raw'' lang_en"
    by code_simp+
  then have ok: "\<forall>p \<in> set [lang_en]. locale_ok fs_en ''raw'' p"
    and ok': "\<forall>p \<in> set [lang_en]. locale_ok fs_en_bad_fr ''raw'' p"
    by simp_all
  have m: "fs_en (input_file ''raw'' lang_fr) = None"
    and i: "input_file ''raw'' lang_fr = ''raw/fr.xliff''"
    and l: "map locale_code [lang_en] = [''en'']" "locale_code lang_fr = ''fr''"
    and x: "fs_en_bad_fr (input_file ''raw'' lang_fr) \<noteq> None"
    and e: "fst (parse_xliff_file fs_en_bad_fr (input_file ''raw'' lang_fr) True) = Inl AttributeError"
    by code_simp+
  from first_failure_aborts [OF a, where pre = "[lang_en]" and l = lang_fr and post = "[]"
      and fs = fs_en and dir = "''raw''" and glossary_dict = "()"]
    s ok m
  have v: "\<exists>out. parse_all_xliff_files fs_en setup_en_fr () ''raw'' =
               (Inl (FileNotFoundError (input_file ''raw'' lang_fr)), out) \<and>
             progress_of out = map locale_code [lang_en]"
    by blast
  from first_failure_aborts [OF a, where pre = "[lang_en]" and l = lang_fr and post = "[]"
      and fs = fs_en_bad_fr and dir = "''raw''" and e = AttributeError and glossary_dict = "()"]
    s ok' x e
  have "\<exists>out. parse_all_xliff_files fs_en_bad_fr setup_en_fr () ''raw'' =
               (Inl (LocaleError (locale_code lang_fr) AttributeError), out) \<and>
             progress_of out = map locale_code [lang_en] @ [locale_code lang_fr]"
    by blast
  with v l i show ?thesis by simp
qed


section \<open>A marker without text\<close>

text \<open>
  C10. For a file that holds the tree \<open>root\<close>: when the marker located in a unit of a
  plural group has no text, parsing raises an exception, namely the attribute error once
  the \<open>file\<close> child and its \<open>target-language\<close> attribute are present; the aggregation
  that reaches this file raises the error of that locale wrapping it. When every
  \<open>context\<close> element of type \<open>x-plural-form\<close> in the tree carries a text (in
  particular a non-empty one), parsing does not raise the attribute error.
\<close>

theorem marker_without_text_raises:
  assumes "fs file_path = Some (XML root)"
  shows "(g \<in> set (plural_groups root) \<and> u \<in> set (findall g ''trans-unit'') \<and>
          plural_form_marker u = Some pe \<and> etext pe = None \<longrightarrow>
            (\<exists>e. fst (parse_xliff_file fs file_path w) = Inl e) \<and>
            (find_elem root ''file'' = Some fe \<and> get fe ''target-language'' = Some lang \<longrightarrow>
               fst (parse_xliff_file fs file_path w) = Inl AttributeError))
     \<and> (fst (parse_xliff_file fs file_path True) = Inl AttributeError \<and>
         source_language cfg # target_languages cfg = pre @ l # post \<and>
         (\<forall>p \<in> set pre. locale_ok fs dir p) \<and> input_file dir l = file_path \<longrightarrow>
            fst (parse_all_xliff_files fs cfg glossary_dict dir) =
              Inl (LocaleError (locale_code l) AttributeError))
     \<and> (markers_have_text root \<longrightarrow>
            fst (parse_xliff_file fs file_path w) \<noteq> Inl AttributeError)"
proof -
  note p = parse_xliff_file_XML [of fs file_path root, OF assms] parse_root_fst
  have A: "(\<exists>e. fst (parse_xliff_file fs file_path w) = Inl e) \<and>
            (find_elem root ''file'' = Some fe \<and> get fe ''target-language'' = Some lang \<longrightarrow>
               fst (parse_xliff_file fs file_path w) = Inl AttributeError)"
    if "g \<in> set (plural_groups root) \<and> u \<in> set (findall g ''trans-unit'') \<and>
          plural_form_marker u = Some pe \<and> etext pe = None"
  proof -
    from that have "doc_fails root"
      using doc_fails_located [of g root u pe] by simp
    then show ?thesis
      by (simp add: p split: option.splits)
  qed
  have B: "fst (parse_all_xliff_files fs cfg glossary_dict dir) =
              Inl (LocaleError (locale_code l) AttributeError)"
    if h: "fst (parse_xliff_file fs file_path True) = Inl AttributeError \<and>
         source_language cfg # target_languages cfg = pre @ l # post \<and>
         (\<forall>p \<in> set pre. locale_ok fs dir p) \<and> input_file dir l = file_path"
  proof -
    from h assms have 1: "\<forall>p \<in> set pre. locale_ok fs dir p"
      and 2: "fs (input_file dir l) \<noteq> None"
      and 3: "fst (parse_xliff_file fs (input_file dir l) True) = Inl AttributeError"
      by simp_all
    from locales_loop_first_raise [OF 1 2 3, of post "[]" "[]"] h show ?thesis
      by (auto simp add: parse_all_xliff_files_def)
  qed
  have C: "fst (parse_xliff_file fs file_path w) \<noteq> Inl AttributeError"
    if "markers_have_text root"
    using markers_no_failure [OF that] by (simp add: p split: option.splits)
  from A B C show ?thesis by blast
qed

theorem marker_without_text_raises_witness:
  "fst (parse_xliff_file fs_en_bad_fr ''raw/fr.xliff'' True) = Inl AttributeError
   \<and> fst (parse_all_xliff_files fs_en_bad_fr setup_en_fr () ''raw'') =
        Inl (LocaleError ''fr'' AttributeError)
   \<and> markers_have_text doc_cart
   \<and> fst (parse_xliff_file fs_en_fr ''raw/fr.xliff'' True) \<noteq> Inl AttributeError"
proof -
  let ?u = "plural_unit ''k'' None (Some ''src'') (Some ''t'')"
  let ?g = "plural_group [?u]"
  let ?pe = "el ''context'' [(''context-type'', ''x-plural-form'')] None []"
  let ?fe = "el ''file'' [(''source-language'', ''en''), (''target-language'', ''fr'')] None
      [el ''body'' [] None [?g]]"
  have f: "fs_en_bad_fr ''raw/fr.xliff'' = Some (XML doc_empty_marker)"
    and f': "fs_en_fr ''raw/fr.xliff'' = Some (XML doc_cart)"
    by code_simp+
  have m: "?g \<in> set (plural_groups doc_empty_marker) \<and> ?u \<in> set (findall ?g ''trans-unit'') \<and>
      plural_form_marker ?u = Some ?pe \<and> etext ?pe = None"
    and c: "find_elem doc_empty_marker ''file'' = Some ?fe \<and>
      get ?fe ''target-language'' = Some ''fr''"
    by code_simp+
  note T = marker_without_text_raises [where fs = fs_en_bad_fr and file_path = "''raw/fr.xliff''"
      and root = doc_empty_marker, OF f, where g = ?g and u = ?u and pe = ?pe and fe = ?fe
      and lang = "''fr''" and w = True and cfg = setup_en_fr and pre = "[lang_en]"
      and l = lang_fr and post = "[]" and dir = "''raw''" and glossary_dict = "()"]
  have 1: "fst (parse_xliff_file fs_en_bad_fr ''raw/fr.xliff'' True) = Inl AttributeError"
    by (rule T [THEN conjunct1, THEN mp, OF m, THEN conjunct2, THEN mp, OF c])
  have a: "source_language setup_en_fr # target_languages setup_en_fr = [lang_en] @ lang_fr # []"
    by (simp add: setup_en_fr_def)
  have "locale_ok fs_en_bad_fr ''raw'' lang_en"
    by code_simp
  then have ok: "\<forall>p \<in> set [lang_en]. locale_ok fs_en_bad_fr ''raw'' p"
    by simp
  have i: "input_file ''raw'' lang_fr = ''raw/fr.xliff''" and l: "locale_code lang_fr = ''fr''"
    by code_simp+
  have h: "fst (parse_xliff_file fs_en_bad_fr ''raw/fr.xliff'' True) = Inl AttributeError \<and>
      source_language setup_en_fr # target_languages setup_en_fr = [lang_en] @ lang_fr # [] \<and>
      (\<forall>p \<in> set [lang_en]. locale_ok fs_en_bad_fr ''raw'' p) \<and>
      input_file ''raw'' lang_fr = ''raw/fr.xliff''"
    by (intro conjI 1 a ok i)
  have "fst (parse_all_xliff_files fs_en_bad_fr setup_en_fr () ''raw'') =
        Inl (LocaleError (locale_code lang_fr) AttributeError)"
    by (rule T [THEN conjunct2, THEN conjunct1, THEN mp, OF h])
  then have 2: "fst (parse_all_xliff_files fs_en_bad_fr setup_en_fr () ''raw'') =
        Inl (LocaleError ''fr'' AttributeError)"
    by (simp only: l)
  have 3: "markers_have_text doc_cart"
    by code_simp
  have 4: "fst (parse_xliff_file fs_en_fr ''raw/fr.xliff'' True) \<noteq> Inl AttributeError"
    by (rule marker_without_text_raises [where fs = fs_en_fr and file_path = "''raw/fr.xliff''"
      and root = doc_cart and w = True, OF f', THEN conjunct2, THEN conjunct2, THEN mp, OF 3])
  show ?thesis by (intro conjI 1 2 3 4)
qed

end
